theory Spec2Isabelle
  imports Complex_Main "HOL-Library.Char_ord" "HOL-Library.List_Lexorder"
    "HOL-Library.Extended_Nat"
begin

text \<open>
  The portfolio valuation and performance analytics of \<^verbatim>\<open>script.js\<close>: the alignment of
  the fetched price series on one date axis, the forward-filled valuation loop, the
  metrics derived from the valuation series (\<^verbatim>\<open>analyzePortfolio\<close>), and the scoring of
  preset portfolios over descending lookback ranges (\<^verbatim>\<open>calcPortfolioMetrics\<close>). The
  fetching, the page and the charts are outside the model.
\<close>

section \<open>JavaScript numbers\<close>

text \<open>
  The analytics of \<^verbatim>\<open>script.js\<close> work on JavaScript numbers. A number is modelled
  as a real or one of the three non-finite values. Finite arithmetic is exact: the
  rounding and the overflow of IEEE doubles are not modelled, and neither is the sign of
  zero (a zero divisor counts as \<open>+0\<close>, which is the zero the valuation loops produce
  from \<^verbatim>\<open>let dailyTotal = 0\<close> and non-negative terms).
\<close>

datatype jsnum = Num real | PInf | NInf | NaN

fun js_neg :: "jsnum \<Rightarrow> jsnum" where
  "js_neg (Num a) = Num (- a)"
| "js_neg PInf = NInf"
| "js_neg NInf = PInf"
| "js_neg NaN = NaN"

fun js_add :: "jsnum \<Rightarrow> jsnum \<Rightarrow> jsnum" where
  "js_add (Num a) (Num b) = Num (a + b)"
| "js_add NaN _ = NaN"
| "js_add _ NaN = NaN"
| "js_add PInf NInf = NaN"
| "js_add NInf PInf = NaN"
| "js_add PInf _ = PInf"
| "js_add _ PInf = PInf"
| "js_add NInf _ = NInf"
| "js_add _ NInf = NInf"

fun js_mul :: "jsnum \<Rightarrow> jsnum \<Rightarrow> jsnum" where
  "js_mul (Num a) (Num b) = Num (a * b)"
| "js_mul NaN _ = NaN"
| "js_mul _ NaN = NaN"
| "js_mul (Num a) i = (if a = 0 then NaN else if 0 < a then i else js_neg i)"
| "js_mul i (Num b) = (if b = 0 then NaN else if 0 < b then i else js_neg i)"
| "js_mul PInf i = i"
| "js_mul NInf i = js_neg i"

fun js_div :: "jsnum \<Rightarrow> jsnum \<Rightarrow> jsnum" where
  "js_div (Num a) (Num b) =
     (if b = 0 then (if a = 0 then NaN else if 0 < a then PInf else NInf)
      else Num (a / b))"
| "js_div NaN _ = NaN"
| "js_div _ NaN = NaN"
| "js_div (Num a) _ = Num 0"
| "js_div i (Num b) = (if 0 \<le> b then i else js_neg i)"
| "js_div _ _ = NaN"

fun js_less :: "jsnum \<Rightarrow> jsnum \<Rightarrow> bool" where
  "js_less (Num a) (Num b) = (a < b)"
| "js_less NaN _ = False"
| "js_less _ NaN = False"
| "js_less NInf b = (b \<noteq> NInf)"
| "js_less a PInf = (a \<noteq> PInf)"
| "js_less _ _ = False"

instantiation jsnum :: "{plus, minus, uminus, times, inverse, ord}"
begin

definition plus_jsnum :: "jsnum \<Rightarrow> jsnum \<Rightarrow> jsnum" where
  "plus_jsnum a b = js_add a b"

definition uminus_jsnum :: "jsnum \<Rightarrow> jsnum" where
  "uminus_jsnum a = js_neg a"

definition minus_jsnum :: "jsnum \<Rightarrow> jsnum \<Rightarrow> jsnum" where
  "minus_jsnum a b = js_add a (js_neg b)"

definition times_jsnum :: "jsnum \<Rightarrow> jsnum \<Rightarrow> jsnum" where
  "times_jsnum a b = js_mul a b"

definition divide_jsnum :: "jsnum \<Rightarrow> jsnum \<Rightarrow> jsnum" where
  "divide_jsnum a b = js_div a b"

definition inverse_jsnum :: "jsnum \<Rightarrow> jsnum" where
  "inverse_jsnum a = js_div (Num 1) a"

definition less_jsnum :: "jsnum \<Rightarrow> jsnum \<Rightarrow> bool" where
  "less_jsnum a b = js_less a b"

definition less_eq_jsnum :: "jsnum \<Rightarrow> jsnum \<Rightarrow> bool" where
  "less_eq_jsnum a b = (js_less a b \<or> (a = b \<and> a \<noteq> NaN))"

instance ..

end

lemmas jsnum_ops = plus_jsnum_def uminus_jsnum_def minus_jsnum_def times_jsnum_def
  divide_jsnum_def less_jsnum_def less_eq_jsnum_def

text \<open>
  \<^verbatim>\<open>Math.pow(base, exponent)\<close>, by the cases of the language standard. A finite
  negative base has a real power only at an integer exponent.
\<close>

definition is_int :: "real \<Rightarrow> bool" where
  "is_int e = (of_int \<lfloor>e\<rfloor> = e)"

definition odd_int :: "real \<Rightarrow> bool" where
  "odd_int e = (is_int e \<and> odd \<lfloor>e\<rfloor>)"

fun js_pow :: "jsnum \<Rightarrow> jsnum \<Rightarrow> jsnum" where
  "js_pow _ NaN = NaN"
| "js_pow b (Num e) =
     (if e = 0 then Num 1
      else case b of
        NaN \<Rightarrow> NaN
      | PInf \<Rightarrow> (if 0 < e then PInf else Num 0)
      | NInf \<Rightarrow> (if 0 < e then (if odd_int e then NInf else PInf) else Num 0)
      | Num x \<Rightarrow>
          (if x = 0 then (if 0 < e then Num 0 else PInf)
           else if 0 < x then Num (x powr e)
           else if is_int e then Num (power_int x \<lfloor>e\<rfloor>)
           else NaN))"
| "js_pow NaN _ = NaN"
| "js_pow (Num x) PInf =
     (if 1 < \<bar>x\<bar> then PInf else if \<bar>x\<bar> = 1 then NaN else Num 0)"
| "js_pow (Num x) NInf =
     (if 1 < \<bar>x\<bar> then Num 0 else if \<bar>x\<bar> = 1 then NaN else PInf)"
| "js_pow _ PInf = PInf"
| "js_pow _ NInf = Num 0"

section \<open>Performance metrics\<close>

text \<open>
  \<^verbatim>\<open>portfolioValues[0]\<close> and \<^verbatim>\<open>portfolioValues[portfolioValues.length - 1]\<close>: on
  an empty array both reads give \<^verbatim>\<open>undefined\<close>, which the arithmetic and the
  comparisons that follow treat as \<open>NaN\<close>.
\<close>

definition initialValue :: "real list \<Rightarrow> jsnum" where
  "initialValue vs = (case vs of [] \<Rightarrow> NaN | v # _ \<Rightarrow> Num v)"

definition finalValue :: "real list \<Rightarrow> jsnum" where
  "finalValue vs = (if vs = [] then NaN else Num (last vs))"

definition totalReturn :: "real list \<Rightarrow> jsnum" where
  "totalReturn vs =
     ((finalValue vs - initialValue vs) / initialValue vs) * Num 100"

text \<open>
  \<^verbatim>\<open>rangeMap[range]\<close> on the object literal. The read finds the six keys of the
  literal and, under any other name, what the object inherits from
  \<^verbatim>\<open>Object.prototype\<close>: its methods, and the prototype itself under
  \<^verbatim>\<open>__proto__\<close>. Any other name gives \<^verbatim>\<open>undefined\<close>.
\<close>

datatype property = Undefined | Own real | Inherited

definition inheritedMembers :: "string list" where
  "inheritedMembers =
     [''constructor'', ''hasOwnProperty'', ''isPrototypeOf'', ''propertyIsEnumerable'',
      ''toLocaleString'', ''toString'', ''valueOf'', ''__proto__'',
      ''__defineGetter__'', ''__defineSetter__'', ''__lookupGetter__'', ''__lookupSetter__'']"

definition rangeMap :: "string \<Rightarrow> property" where
  "rangeMap rng =
     (case map_of
        [(''10y'', 10), (''7y'', 7), (''5y'', 5), (''3y'', 3), (''1y'', 1), (''6mo'', 0.5)] rng of
        Some y \<Rightarrow> Own y
      | None \<Rightarrow> if rng \<in> set inheritedMembers then Inherited else Undefined)"

text \<open>
  \<^verbatim>\<open>const years = rangeMap[range] || 5\<close>, as the number that \<^verbatim>\<open>1 / years\<close> reads.
  An inherited member is a function or an object: it is truthy, so \<^verbatim>\<open>|| 5\<close> keeps it,
  and its number is \<open>NaN\<close>.
\<close>

definition years_of :: "string \<Rightarrow> jsnum" where
  "years_of rng =
     (case rangeMap rng of
        Undefined \<Rightarrow> Num 5
      | Own y \<Rightarrow> (if y = 0 then Num 5 else Num y)
      | Inherited \<Rightarrow> NaN)"

definition cagr :: "string \<Rightarrow> real list \<Rightarrow> jsnum" where
  "cagr rng vs =
     (if Num 0 < initialValue vs \<and> Num 0 < finalValue vs
      then (js_pow (finalValue vs / initialValue vs) (Num 1 / years_of rng) - Num 1)
             * Num 100
      else Num 0)"

text \<open>
  The drawdown loop, written twice in the source with the same body (in
  \<^verbatim>\<open>analyzePortfolio\<close> and in \<^verbatim>\<open>calcPortfolioMetrics\<close>). The state is the pair
  of the loop variables \<^verbatim>\<open>peak\<close> and \<^verbatim>\<open>maxDrawdown\<close>.
\<close>

definition mdd_step :: "jsnum \<times> jsnum \<Rightarrow> jsnum \<Rightarrow> jsnum \<times> jsnum" where
  "mdd_step s v =
     (let peak = (if fst s < v then v else fst s);
          drawdown = (v - peak) / peak
      in (peak, if drawdown < snd s then drawdown else snd s))"

definition mdd_loop :: "jsnum list \<Rightarrow> jsnum \<times> jsnum" where
  "mdd_loop vs = foldl mdd_step (NInf, Num 0) vs"

definition maxDrawdown :: "jsnum list \<Rightarrow> jsnum" where
  "maxDrawdown vs = snd (mdd_loop vs)"


section \<open>Number and date formatting\<close>

text \<open>Decimal digits of a natural number, as \<^verbatim>\<open>toString\<close> prints them.\<close>

fun show_nat :: "nat \<Rightarrow> string" where
  "show_nat n =
     (if n < 10 then [''0123456789'' ! n]
      else show_nat (n div 10) @ [''0123456789'' ! (n mod 10)])"

declare show_nat.simps [simp del]

definition show_int :: "int \<Rightarrow> string" where
  "show_int i = (if i < 0 then ''-'' @ show_nat (nat (- i)) else show_nat (nat i))"

definition padStart2 :: "string \<Rightarrow> string" where
  "padStart2 s = replicate (2 - length s) CHR ''0'' @ s"

text \<open>
  \<^verbatim>\<open>x.toFixed(2)\<close>: the sign, then the integer \<open>n\<close> nearest to \<open>\<bar>x\<bar> * 100\<close> (the
  larger one at a tie) printed with two digits after the point. From \<open>10\<^sup>2\<^sup>1\<close> on
  JavaScript prints the exponent notation of the double instead, which has no
  counterpart on exact reals; the model keeps the decimal expansion there.
\<close>

definition toFixed2 :: "jsnum \<Rightarrow> string" where
  "toFixed2 v =
     (case v of
        NaN \<Rightarrow> ''NaN''
      | PInf \<Rightarrow> ''Infinity''
      | NInf \<Rightarrow> ''-Infinity''
      | Num x \<Rightarrow>
          (let n = nat \<lfloor>\<bar>x\<bar> * 100 + 1 / 2\<rfloor>;
               m = show_nat n;
               m = replicate (3 - length m) CHR ''0'' @ m;
               body = take (length m - 2) m @ ''.'' @ drop (length m - 2) m
           in if x < 0 then ''-'' @ body else body))"

text \<open>
  The fields of \<^verbatim>\<open>new Date(t * 1000)\<close> that \<^verbatim>\<open>ymd\<close> reads: \<^verbatim>\<open>getFullYear()\<close>,
  \<^verbatim>\<open>getMonth() + 1\<close> and \<^verbatim>\<open>getDate()\<close>, all in local time. The host's time zone
  is a parameter \<open>tz\<close>, its offset from UTC in seconds, taken as constant. The calendar
  is the proleptic Gregorian one; the day count, shifted to start on a 1 March, is split
  into 400-year eras, and the year starts in March until the last step.
\<close>

definition year_of_era :: "int \<Rightarrow> int" where
  "year_of_era doe = (doe - doe div 1460 + doe div 36524 - doe div 146096) div 365"

definition day_of_year :: "int \<Rightarrow> int" where
  "day_of_year doe =
     doe - (365 * year_of_era doe + year_of_era doe div 4 - year_of_era doe div 100)"

definition month_index :: "int \<Rightarrow> int" where
  "month_index doy = (5 * doy + 2) div 153"

definition civil_month :: "int \<Rightarrow> int" where
  "civil_month doy = (if month_index doy < 10 then month_index doy + 3 else month_index doy - 9)"

definition civil_day :: "int \<Rightarrow> int" where
  "civil_day doy = doy - (153 * month_index doy + 2) div 5 + 1"

definition civil_year :: "int \<Rightarrow> int \<Rightarrow> int" where
  "civil_year era doe =
     year_of_era doe + era * 400 + (if civil_month (day_of_year doe) \<le> 2 then 1 else 0)"

definition civil :: "int \<Rightarrow> int \<times> int \<times> int" where
  "civil days =
     (civil_year ((days + 719468) div 146097) ((days + 719468) mod 146097),
      civil_month (day_of_year ((days + 719468) mod 146097)),
      civil_day (day_of_year ((days + 719468) mod 146097)))"

text \<open>
  \<^verbatim>\<open>ymd\<close>, the date key \<^verbatim>\<open>YYYY-MM-DD\<close>. A time value beyond 8.64e15 milliseconds
  is an invalid date, whose fields are all \<open>NaN\<close>.
\<close>

definition ymd :: "int \<Rightarrow> int \<Rightarrow> string" where
  "ymd tz t =
     (if 8640000000000000 < \<bar>t * 1000\<bar> then ''NaN-NaN-NaN''
      else case civil ((t + tz) div 86400) of
        (y, m, d) \<Rightarrow> show_int y @ ''-'' @ padStart2 (show_int m) @ ''-'' @ padStart2 (show_int d))"


section \<open>Input data\<close>

text \<open>
  A fetched chart result carries the parallel arrays \<^verbatim>\<open>timestamp\<close> and
  \<^verbatim>\<open>indicators.quote[0].close\<close>; they are modelled as one list of pairs of an epoch
  second and a close, where \<open>None\<close> is a \<^verbatim>\<open>null\<close> close. \<^verbatim>\<open>fetchHistory\<close> is the
  network collaborator: it is a parameter of the model, and \<open>None\<close> is its \<^verbatim>\<open>null\<close>
  result.
\<close>

type_synonym series = "(int \<times> real option) list"

type_synonym fetcher = "string \<Rightarrow> string \<Rightarrow> series option"

record item =
  symbol :: string
  name :: string
  quantity :: real

definition endsWith :: "string \<Rightarrow> string \<Rightarrow> bool" where
  "endsWith s suf = (length suf \<le> length s \<and> drop (length s - length suf) s = suf)"

definition isKRW :: "item \<Rightarrow> bool" where
  "isKRW it = (endsWith (symbol it) ''.KS'' \<or> endsWith (symbol it) ''.KQ'')"

text \<open>\<^verbatim>\<open>null\<close> in a product counts as 0.\<close>

definition toNumber :: "real option \<Rightarrow> real" where
  "toNumber c = (case c of None \<Rightarrow> 0 | Some x \<Rightarrow> x)"

section \<open>Series alignment\<close>

text \<open>
  The per-date lookups \<^verbatim>\<open>dateToExchange\<close> and \<^verbatim>\<open>dateToStocks[idx]\<close>: one
  \<^verbatim>\<open>map.set(ymd(t), close[i])\<close> per observation, in array order. The lookups keyed
  by the raw timestamp that the source builds before them (\<^verbatim>\<open>allTimestamps\<close>,
  \<^verbatim>\<open>sortedTimes\<close>, \<^verbatim>\<open>createLookup\<close>) are never read and are left out.
\<close>

definition dateMap :: "int \<Rightarrow> series \<Rightarrow> (string \<rightharpoonup> real option)" where
  "dateMap tz res = foldl (\<lambda>m (t, c). m(ymd tz t \<mapsto> c)) Map.empty res"

definition dateToStocks :: "int \<Rightarrow> series option list \<Rightarrow> (string \<rightharpoonup> real option) list" where
  "dateToStocks tz stockResultsRaw =
     map (\<lambda>res. case res of None \<Rightarrow> Map.empty | Some r \<Rightarrow> dateMap tz r) stockResultsRaw"

text \<open>\<^verbatim>\<open>map.has(date) && map.get(date) !== null\<close>, with the value it guards.\<close>

definition lookup_valid :: "(string \<rightharpoonup> real option) \<Rightarrow> string \<Rightarrow> real option" where
  "lookup_valid m date = (case m date of None \<Rightarrow> None | Some c \<Rightarrow> c)"

text \<open>A JavaScript \<^verbatim>\<open>Set\<close> keeps its members in insertion order.\<close>

definition Set_add :: "'a list \<Rightarrow> 'a \<Rightarrow> 'a list" where
  "Set_add s x = (if x \<in> set s then s else s @ [x])"

definition allDatesSet :: "int \<Rightarrow> series \<Rightarrow> series option list \<Rightarrow> string list" where
  "allDatesSet tz exchangeDataRaw stockResultsRaw =
     foldl (\<lambda>s res. case res of None \<Rightarrow> s | Some r \<Rightarrow> foldl Set_add s (map (\<lambda>(t, c). ymd tz t) r))
       (foldl Set_add [] (map (\<lambda>(t, c). ymd tz t) exchangeDataRaw))
       stockResultsRaw"

text \<open>
  \<^verbatim>\<open>Array.from(allDatesSet).sort()\<close>: the default order of \<^verbatim>\<open>sort\<close> is the
  lexicographic order of the strings.
\<close>

definition sortedDates :: "int \<Rightarrow> series \<Rightarrow> series option list \<Rightarrow> string list" where
  "sortedDates tz exchangeDataRaw stockResultsRaw =
     sort (allDatesSet tz exchangeDataRaw stockResultsRaw)"

section \<open>Valuation loop\<close>

record loop_state =
  lastExchange :: real
  lastPrices :: "real list"
  portfolioValues :: "real list"
  chartLabels :: "string list"

text \<open>\<^verbatim>\<open>close[0] || 1200\<close>: the first close of the FX array unless it is missing, null or 0.\<close>

definition firstExchange :: "series \<Rightarrow> real" where
  "firstExchange exchangeDataRaw =
     (case exchangeDataRaw of
        [] \<Rightarrow> 1200
      | (t, c) # _ \<Rightarrow> (case c of None \<Rightarrow> 1200 | Some x \<Rightarrow> if x = 0 then 1200 else x))"

text \<open>
  The body of \<^verbatim>\<open>items.forEach((item, idx) => ...)\<close>; the accumulator is the pair of
  \<^verbatim>\<open>dailyTotal\<close> and \<^verbatim>\<open>lastPrices\<close>.
\<close>

definition item_step ::
  "item list \<Rightarrow> (string \<rightharpoonup> real option) list \<Rightarrow> string \<Rightarrow> real \<Rightarrow> real \<times> real list \<Rightarrow> nat
     \<Rightarrow> real \<times> real list" where
  "item_step items maps date exchange acc idx =
     (let priceMap = maps ! idx;
          price = (case lookup_valid priceMap date of Some p \<Rightarrow> p | None \<Rightarrow> snd acc ! idx);
          prices = (case lookup_valid priceMap date of
                      Some p \<Rightarrow> (snd acc)[idx := p]
                    | None \<Rightarrow> snd acc);
          valueInKRW =
            (if isKRW (items ! idx) then price * quantity (items ! idx)
             else price * quantity (items ! idx) * exchange)
      in (fst acc + valueInKRW, prices))"

text \<open>The body of \<^verbatim>\<open>sortedDates.forEach(date => ...)\<close>.\<close>

definition date_step ::
  "item list \<Rightarrow> (string \<rightharpoonup> real option) \<Rightarrow> (string \<rightharpoonup> real option) list \<Rightarrow> loop_state \<Rightarrow> string
     \<Rightarrow> loop_state" where
  "date_step items dateToExchange maps st date =
     (let exchange = (case lookup_valid dateToExchange date of
                        Some x \<Rightarrow> x
                      | None \<Rightarrow> lastExchange st);
          acc = foldl (item_step items maps date exchange) (0, lastPrices st) [0..<length items]
      in \<lparr>lastExchange = exchange,
          lastPrices = snd acc,
          portfolioValues = portfolioValues st @ [fst acc],
          chartLabels = chartLabels st @ [date]\<rparr>)"

definition initial_state :: "series \<Rightarrow> item list \<Rightarrow> loop_state" where
  "initial_state exchangeDataRaw items =
     \<lparr>lastExchange = firstExchange exchangeDataRaw,
      lastPrices = replicate (length items) 0,
      portfolioValues = [],
      chartLabels = []\<rparr>"

text \<open>The loop over a prefix (or all) of the axis.\<close>

definition run_dates ::
  "int \<Rightarrow> series \<Rightarrow> item list \<Rightarrow> series option list \<Rightarrow> string list \<Rightarrow> loop_state" where
  "run_dates tz exchangeDataRaw items stockResultsRaw dates =
     foldl (date_step items (dateMap tz exchangeDataRaw) (dateToStocks tz stockResultsRaw))
       (initial_state exchangeDataRaw items) dates"

definition valuation :: "int \<Rightarrow> series \<Rightarrow> item list \<Rightarrow> series option list \<Rightarrow> loop_state" where
  "valuation tz exchangeDataRaw items stockResultsRaw =
     run_dates tz exchangeDataRaw items stockResultsRaw
       (sortedDates tz exchangeDataRaw stockResultsRaw)"

section \<open>Composition snapshots\<close>

text \<open>
  \<^verbatim>\<open>startValues\<close>. The source first searches the axis for the first valid price, but
  never reads the result: the value is recomputed from the entries at
  \<^verbatim>\<open>sortedDates[0]\<close> alone. On an empty axis \<^verbatim>\<open>firstDate\<close> is \<^verbatim>\<open>undefined\<close>, a key
  that no lookup has.
\<close>

definition startValue ::
  "(string \<rightharpoonup> real option) \<Rightarrow> (string \<rightharpoonup> real option) \<Rightarrow> string list \<Rightarrow> item \<Rightarrow> real" where
  "startValue dateToExchange priceMap dates it =
     (case dates of
        [] \<Rightarrow> 0
      | firstDate # _ \<Rightarrow>
          (let initialExchange =
                 (case dateToExchange firstDate of None \<Rightarrow> 1200 | Some c \<Rightarrow> toNumber c)
           in case priceMap firstDate of
                None \<Rightarrow> 0
              | Some c \<Rightarrow>
                  if isKRW it then toNumber c * quantity it
                  else toNumber c * quantity it * initialExchange))"

text \<open>\<^verbatim>\<open>endValues\<close>, from the loop variables as the main loop left them.\<close>

definition endValue :: "real \<Rightarrow> real \<Rightarrow> item \<Rightarrow> real" where
  "endValue exchange price it =
     (if 0 < price
      then (if isKRW it then price * quantity it else price * quantity it * exchange)
      else 0)"

section \<open>The single-portfolio analysis\<close>

datatype error = NoItems | NoExchangeRate

record analysis =
  valuationSeries :: "real list"
  axisLabels :: "string list"
  totalReturnPct :: jsnum
  cagrPct :: jsnum
  maxDrawdownPct :: jsnum
  statReturn :: string
  statCagr :: string
  statMdd :: string
  startValues :: "(string \<times> real) list"
  endValues :: "(string \<times> real) list"

text \<open>
  \<^verbatim>\<open>analyzePortfolio(range)\<close> on the holdings \<^verbatim>\<open>Object.values(portfolio)\<close>. With no
  holding it alerts and returns; without the FX series it throws, and its own handler
  alerts. The three \<open>stat\<close> fields are the texts written to the page.
\<close>

definition stockResults :: "fetcher \<Rightarrow> item list \<Rightarrow> string \<Rightarrow> series option list" where
  "stockResults fetchHistory items rng = map (\<lambda>it. fetchHistory (symbol it) rng) items"

definition analyzePortfolio :: "int \<Rightarrow> fetcher \<Rightarrow> item list \<Rightarrow> string \<Rightarrow> error + analysis" where
  "analyzePortfolio tz fetchHistory items rng =
     (if items = [] then Inl NoItems
      else case fetchHistory ''KRW=X'' rng of
        None \<Rightarrow> Inl NoExchangeRate
      | Some exchangeDataRaw \<Rightarrow>
          (let stockResultsRaw = stockResults fetchHistory items rng;
               dates = sortedDates tz exchangeDataRaw stockResultsRaw;
               st = valuation tz exchangeDataRaw items stockResultsRaw;
               vs = portfolioValues st;
               mdd = maxDrawdown (map Num vs) * Num 100
           in Inr \<lparr>valuationSeries = vs,
                    axisLabels = chartLabels st,
                    totalReturnPct = totalReturn vs,
                    cagrPct = cagr rng vs,
                    maxDrawdownPct = mdd,
                    statReturn = toFixed2 (totalReturn vs) @ ''%'',
                    statCagr = toFixed2 (cagr rng vs) @ ''%'',
                    statMdd = toFixed2 mdd @ ''%'',
                    startValues =
                      map (\<lambda>idx. (name (items ! idx),
                                  startValue (dateMap tz exchangeDataRaw)
                                    (dateToStocks tz stockResultsRaw ! idx) dates (items ! idx)))
                        [0..<length items],
                    endValues =
                      map (\<lambda>idx. (name (items ! idx),
                                  endValue (lastExchange st) (lastPrices st ! idx) (items ! idx)))
                        [0..<length items]\<rparr>))"


section \<open>Adaptive range prober\<close>

text \<open>
  A preset item \<^verbatim>\<open>{symbol, weight, name}\<close>, of which the prober reads the symbol and
  the weight, and the record \<^verbatim>\<open>{range, return, mdd}\<close> it returns.
\<close>

record preset_item =
  asset :: string
  weight :: real

record metrics =
  m_range :: string
  m_return :: string
  m_mdd :: string

text \<open>
  One round of the \<^verbatim>\<open>for (const range of ranges)\<close> loop either goes on to the next
  range, returns, or does not come back: with no item at all \<^verbatim>\<open>Math.min()\<close> is
  \<open>Infinity\<close>, and the valuation loop \<^verbatim>\<open>for (let i = 0; i < minLen; i++)\<close> has no
  bound. The \<^verbatim>\<open>catch\<close> of the round has nothing to catch in the model: a fetched
  series always has its arrays, and no operation on numbers throws.
\<close>

datatype outcome = Continue | Return (result: metrics) | Diverges

text \<open>\<^verbatim>\<open>!r || !r.timestamp || r.timestamp.length < 10\<close>\<close>

definition invalid :: "series option \<Rightarrow> bool" where
  "invalid r = (case r of None \<Rightarrow> True | Some res \<Rightarrow> length res < 10)"

definition maxStartTime :: "series list \<Rightarrow> int" where
  "maxStartTime results =
     foldl (\<lambda>m res. if m < fst (hd res) then fst (hd res) else m) 0 results"

text \<open>\<^verbatim>\<open>findIndex\<close> gives -1 when nothing matches, and \<^verbatim>\<open>slice\<close> counts a negative
  start from the end.\<close>

definition findIndex :: "('a \<Rightarrow> bool) \<Rightarrow> 'a list \<Rightarrow> int" where
  "findIndex P xs =
     (if \<exists>x\<in>set xs. P x then int (length (takeWhile (\<lambda>x. \<not> P x) xs)) else - 1)"

definition slice_from :: "int \<Rightarrow> 'a list \<Rightarrow> 'a list" where
  "slice_from start xs =
     (if start < 0 then drop (nat (max (int (length xs) + start) 0)) xs
      else drop (nat start) xs)"

definition processedData :: "series list \<Rightarrow> series list" where
  "processedData results =
     map (\<lambda>res. slice_from (findIndex (\<lambda>(t, c). maxStartTime results \<le> t) res) res) results"

text \<open>\<^verbatim>\<open>Math.min(...lengths)\<close>, which is \<open>Infinity\<close> for no argument.\<close>

definition minLen :: "series list \<Rightarrow> enat" where
  "minLen ds = foldr (\<lambda>d m. min (enat (length d)) m) ds \<infinity>"

definition normPrices :: "series list \<Rightarrow> jsnum list list" where
  "normPrices ds =
     map (\<lambda>d. map (\<lambda>(t, p). Num (toNumber p) / Num (toNumber (snd (hd d)))) d) ds"

definition presetValues :: "preset_item list \<Rightarrow> jsnum list list \<Rightarrow> nat \<Rightarrow> jsnum list" where
  "presetValues items prices n =
     map (\<lambda>i. foldl (\<lambda>val idx. val + Num (weight (items ! idx)) * (prices ! idx ! i))
                 (Num 0) [0..<length items])
       [0..<n]"

definition probe :: "fetcher \<Rightarrow> preset_item list \<Rightarrow> string \<Rightarrow> outcome" where
  "probe fetchHistory items rng =
     (let fetched = map (\<lambda>it. fetchHistory (asset it) rng) items in
      if \<exists>r\<in>set fetched. invalid r then Continue
      else
        let ds = processedData (map the fetched) in
        if minLen ds < 120 then Continue
        else case minLen ds of
          \<infinity> \<Rightarrow> Diverges
        | enat n \<Rightarrow>
            (let vs = presetValues items (normPrices ds) n;
                 startVal = vs ! 0;
                 endVal = vs ! (length vs - 1);
                 durationDays =
                   Num (of_int (fst (hd ds ! (n - 1)) - fst (hd ds ! 0))) / Num (3600 * 24);
                 years = durationDays / Num 365.25;
                 growth = (js_pow (endVal / startVal) (Num 1 / years) - Num 1) * Num 100
             in Return \<lparr>m_range = rng,
                        m_return = toFixed2 growth,
                        m_mdd = toFixed2 (maxDrawdown vs * Num 100)\<rparr>))"

fun try_ranges :: "fetcher \<Rightarrow> preset_item list \<Rightarrow> string list \<Rightarrow> metrics option" where
  "try_ranges fetchHistory items [] =
     Some \<lparr>m_range = ''N/A'', m_return = ''0.00'', m_mdd = ''0.00''\<rparr>"
| "try_ranges fetchHistory items (rng # ranges) =
     (case probe fetchHistory items rng of
        Continue \<Rightarrow> try_ranges fetchHistory items ranges
      | Return m \<Rightarrow> Some m
      | Diverges \<Rightarrow> None)"

text \<open>\<^verbatim>\<open>calcPortfolioMetrics(items)\<close>; \<open>None\<close> when it does not return.\<close>

definition calcPortfolioMetrics :: "fetcher \<Rightarrow> preset_item list \<Rightarrow> metrics option" where
  "calcPortfolioMetrics fetchHistory items =
     try_ranges fetchHistory items [''10y'', ''5y'', ''3y'', ''1y'']"

section \<open>Specification-level notions\<close>

text \<open>The epoch seconds observed in any input series, the FX series included.\<close>

definition all_timestamps :: "series \<Rightarrow> series option list \<Rightarrow> int set" where
  "all_timestamps fx stocks =
     fst ` set fx \<union> (\<Union>res\<in>set stocks. case res of None \<Rightarrow> {} | Some r \<Rightarrow> fst ` set r)"

text \<open>
  Forward fill, as the specification words it: the most recent known value at or before
  a date, and a default while nothing is known yet. A value is known at a date when the
  lookup has a non-null entry there.
\<close>

definition effective :: "(string \<rightharpoonup> real option) \<Rightarrow> string list \<Rightarrow> real \<Rightarrow> string \<Rightarrow> real" where
  "effective m axis dflt d =
     (let known = filter (\<lambda>d'. d' \<le> d \<and> lookup_valid m d' \<noteq> None) axis
      in if known = [] then dflt else the (lookup_valid m (Max (set known))))"

definition effectivePrice :: "int \<Rightarrow> series \<Rightarrow> series option list \<Rightarrow> nat \<Rightarrow> string \<Rightarrow> real" where
  "effectivePrice tz fx stocks idx d =
     effective (dateToStocks tz stocks ! idx) (sortedDates tz fx stocks) 0 d"

definition effectiveRate :: "int \<Rightarrow> series \<Rightarrow> series option list \<Rightarrow> string \<Rightarrow> real" where
  "effectiveRate tz fx stocks d =
     effective (dateMap tz fx) (sortedDates tz fx stocks) (firstExchange fx) d"

definition fxMultiplier :: "int \<Rightarrow> series \<Rightarrow> series option list \<Rightarrow> item \<Rightarrow> string \<Rightarrow> real" where
  "fxMultiplier tz fx stocks it d = (if isKRW it then 1 else effectiveRate tz fx stocks d)"

text \<open>
  The loop variables right after the iteration for the axis date of index \<open>k\<close>: there
  \<^verbatim>\<open>price\<close> of holding \<open>idx\<close> is \<open>lastPrices ! idx\<close> and the FX rate applied is
  \<open>lastExchange\<close>.
\<close>

definition state_at :: "int \<Rightarrow> series \<Rightarrow> item list \<Rightarrow> series option list \<Rightarrow> nat \<Rightarrow> loop_state" where
  "state_at tz fx items stocks k =
     run_dates tz fx items stocks (take (Suc k) (sortedDates tz fx stocks))"

definition fill_step :: "(string \<rightharpoonup> real option) \<Rightarrow> real \<Rightarrow> string \<Rightarrow> real" where
  "fill_step m old date = (case lookup_valid m date of Some p \<Rightarrow> p | None \<Rightarrow> old)"

definition holding_value :: "item \<Rightarrow> real \<Rightarrow> real \<Rightarrow> real" where
  "holding_value it price exchange =
     (if isKRW it then price * quantity it else price * quantity it * exchange)"







text \<open>
  The rejection rule of the prober as the specification words it. The latest common
  start is the latest first timestamp of the assets (not before the epoch, where the
  source starts its search); a series is trimmed to it by dropping the observations
  before it; a range is rejected when an asset could not be fetched or has fewer than
  10 raw observations, or when some trimmed series, and so the common length, is
  shorter than 120.
\<close>

definition latest_start :: "series list \<Rightarrow> int" where
  "latest_start rs = Max (insert 0 (set (map (\<lambda>r. fst (hd r)) rs)))"

definition trimmed :: "int \<Rightarrow> series \<Rightarrow> series" where
  "trimmed start r = dropWhile (\<lambda>(t, c). t < start) r"

definition fetched_series :: "fetcher \<Rightarrow> preset_item list \<Rightarrow> string \<Rightarrow> series list" where
  "fetched_series fetchHistory items rng = map (\<lambda>it. the (fetchHistory (asset it) rng)) items"

definition too_few_raw :: "fetcher \<Rightarrow> preset_item \<Rightarrow> string \<Rightarrow> bool" where
  "too_few_raw fetchHistory it rng =
     (case fetchHistory (asset it) rng of None \<Rightarrow> True | Some r \<Rightarrow> length r < 10)"

definition rejected :: "fetcher \<Rightarrow> preset_item list \<Rightarrow> string \<Rightarrow> bool" where
  "rejected fetchHistory items rng =
     ((\<exists>it\<in>set items. too_few_raw fetchHistory it rng)
      \<or> (\<exists>r\<in>set (fetched_series fetchHistory items rng).
            length (trimmed (latest_start (fetched_series fetchHistory items rng)) r) < 120))"

definition sentinel :: metrics where
  "sentinel = \<lparr>m_range = ''N/A'', m_return = ''0.00'', m_mdd = ''0.00''\<rparr>"

section \<open>Scenarios\<close>

text \<open>
  A portfolio of a foreign and a domestic holding over four days in UTC. The FX series
  has a null close on the second day; the foreign stock is first quoted on the second
  day and has a null close on the third.
\<close>

definition fxS :: series where
  "fxS = [(0, Some 1300), (90000, None), (172800, Some 1310)]"

definition stockA :: series where
  "stockA = [(86400, Some 10), (172800, None), (259200, Some 12)]"

definition stockB :: series where
  "stockB = [(0, Some 5000), (259200, Some 5100)]"

definition fetchS :: fetcher where
  "fetchS ticker rng =
     (if ticker = ''KRW=X'' then Some fxS
      else if ticker = ''AAPL'' then Some stockA
      else if ticker = ''005930.KS'' then Some stockB
      else None)"

definition itemsS :: "item list" where
  "itemsS = [\<lparr>symbol = ''AAPL'', name = ''Apple'', quantity = 2\<rparr>,
             \<lparr>symbol = ''005930.KS'', name = ''Samsung'', quantity = 1\<rparr>]"

text \<open>A foreign holding quoted from the first day, with an FX series that starts a day later.\<close>

definition itemsA :: "item list" where
  "itemsA = [\<lparr>symbol = ''AAPL'', name = ''Apple'', quantity = 2\<rparr>]"

definition stockEarly :: series where
  "stockEarly = [(0, Some 10), (86400, Some 10)]"

definition fxLate :: series where
  "fxLate = [(86400, Some 1300)]"

definition fetchLate :: fetcher where
  "fetchLate ticker rng =
     (if ticker = ''KRW=X'' then Some fxLate
      else if ticker = ''AAPL'' then Some stockEarly
      else None)"

text \<open>The same holding with the FX series of the four-day scenario, quoted from the first day.\<close>

definition fetchEarly :: fetcher where
  "fetchEarly ticker rng =
     (if ticker = ''KRW=X'' then Some fxS
      else if ticker = ''AAPL'' then Some stockEarly
      else None)"

text \<open>Two FX series that differ only in the earlier of two closes of the same day.\<close>

definition fxDup1 :: series where
  "fxDup1 = [(86400, Some 1000), (90000, Some 1300)]"

definition fxDup2 :: series where
  "fxDup2 = [(86400, Some 1100), (90000, Some 1300)]"

text \<open>A stock listed a day after the FX series starts: the first valuation is 0.\<close>

definition fetchIPO :: fetcher where
  "fetchIPO ticker rng =
     (if ticker = ''KRW=X'' then Some [(0, Some 1300), (86400, Some 1300)]
      else if ticker = ''AAPL'' then Some [(86400, Some 10)]
      else None)"

text \<open>
  Presets: an asset with 8 observations at every range (Scenario D), and an asset with
  130 daily observations at every range but 10y, where it has 119.
\<close>

definition daily :: "nat \<Rightarrow> series" where
  "daily n = map (\<lambda>i. (int i * 86400, Some (100 + real i))) [0..<n]"

definition fetchShort :: fetcher where
  "fetchShort ticker rng = Some (daily 8)"

definition fetchLong :: fetcher where
  "fetchLong ticker rng = (if rng = ''10y'' then Some (daily 119) else Some (daily 130))"

definition preset :: "preset_item list" where
  "preset = [\<lparr>asset = ''VTI'', weight = 1\<rparr>]"

section \<open>Drawdown and growth rate\<close>




















theorem totalReturn_zero_start:
  "totalReturn [0, 100] = PInf \<and> totalReturn [0, 0] = NaN \<and> cagr rng [0, 100] = Num 0"
  by (simp add: totalReturn_def cagr_def initialValue_def finalValue_def jsnum_ops)

section \<open>The unified axis\<close>

lemma set_foldl_Set_add: "set (foldl Set_add s xs) = set s \<union> set xs"
  by (induction xs arbitrary: s) (auto simp: Set_add_def)

lemma distinct_foldl_Set_add: "distinct s \<Longrightarrow> distinct (foldl Set_add s xs)"
  by (induction xs arbitrary: s) (auto simp: Set_add_def)

lemma set_fold_stocks:
  "set (foldl (\<lambda>s res. case res of None \<Rightarrow> s | Some r \<Rightarrow> foldl Set_add s (map (\<lambda>(t, c). ymd tz t) r)) s0 stocks)
   = set s0 \<union> (\<Union>res\<in>set stocks. case res of None \<Rightarrow> {} | Some r \<Rightarrow> ymd tz ` fst ` set r)"
proof (induction stocks arbitrary: s0)
  case Nil
  then show ?case by simp
next
  case (Cons res stocks)
  show ?case
    by (cases res) (auto simp: Cons.IH set_foldl_Set_add image_image case_prod_beta)
qed

lemma distinct_fold_stocks:
  "distinct s0 \<Longrightarrow>
   distinct (foldl (\<lambda>s res. case res of None \<Rightarrow> s | Some r \<Rightarrow> foldl Set_add s (map (\<lambda>(t, c). ymd tz t) r)) s0 stocks)"
proof (induction stocks arbitrary: s0)
  case Nil
  then show ?case by simp
next
  case (Cons res stocks)
  then show ?case by (cases res) (simp_all add: distinct_foldl_Set_add)
qed

lemma set_allDatesSet: "set (allDatesSet tz fx stocks) = ymd tz ` all_timestamps fx stocks"
proof -
  have k: "set (map (\<lambda>(t, c). ymd tz t) r) = ymd tz ` fst ` set r" for r :: series
    by (simp add: image_image case_prod_beta)
  have "(\<Union>res\<in>set stocks. case res of None \<Rightarrow> {} | Some r \<Rightarrow> ymd tz ` fst ` set r)
      = ymd tz ` (\<Union>res\<in>set stocks. case res of None \<Rightarrow> {} | Some r \<Rightarrow> fst ` set r)"
    by (auto split: option.splits) (force split: option.splits)+
  then show ?thesis
    unfolding allDatesSet_def all_timestamps_def set_fold_stocks set_foldl_Set_add k
    by (simp add: image_Un)
qed

lemma distinct_allDatesSet: "distinct (allDatesSet tz fx stocks)"
  unfolding allDatesSet_def by (simp add: distinct_fold_stocks distinct_foldl_Set_add)

lemma sortedDates_props:
  "set (sortedDates tz fx stocks) = ymd tz ` all_timestamps fx stocks"
  "distinct (sortedDates tz fx stocks)"
  "sorted (sortedDates tz fx stocks)"
  "sorted_wrt (<) (sortedDates tz fx stocks)"
  "length (sortedDates tz fx stocks) = card (ymd tz ` all_timestamps fx stocks)"
proof -
  show s: "set (sortedDates tz fx stocks) = ymd tz ` all_timestamps fx stocks"
    by (simp add: sortedDates_def set_allDatesSet)
  show d: "distinct (sortedDates tz fx stocks)"
    by (simp add: sortedDates_def distinct_allDatesSet)
  show so: "sorted (sortedDates tz fx stocks)"
    by (simp add: sortedDates_def)
  from d so show "sorted_wrt (<) (sortedDates tz fx stocks)"
    by (simp add: strict_sorted_iff)
  from d s show "length (sortedDates tz fx stocks) = card (ymd tz ` all_timestamps fx stocks)"
    by (metis distinct_card)
qed

section \<open>The valuation loop as a forward fill\<close>

lemma item_loop:
  "n \<le> length lp \<Longrightarrow>
   foldl (item_step items maps date ex) (tot, lp) [0..<n] =
     (tot + (\<Sum>idx<n. holding_value (items ! idx) (fill_step (maps ! idx) (lp ! idx) date) ex),
      map (\<lambda>idx. if idx < n then fill_step (maps ! idx) (lp ! idx) date else lp ! idx) [0..<length lp])"
proof (induction n)
  case 0
  show ?case by (simp add: map_nth)
next
  case (Suc n)
  then have n: "n < length lp" by simp
  let ?ps = "map (\<lambda>idx. if idx < n then fill_step (maps ! idx) (lp ! idx) date else lp ! idx) [0..<length lp]"
  have old: "?ps ! n = lp ! n" using n by simp
  from Suc have IH: "foldl (item_step items maps date ex) (tot, lp) [0..<n] =
     (tot + (\<Sum>idx<n. holding_value (items ! idx) (fill_step (maps ! idx) (lp ! idx) date) ex), ?ps)"
    by simp
  let ?f = "item_step items maps date ex"
  let ?T = "tot + (\<Sum>idx<n. holding_value (items ! idx) (fill_step (maps ! idx) (lp ! idx) date) ex)"
  have "foldl ?f (tot, lp) [0..<Suc n] = ?f (foldl ?f (tot, lp) [0..<n]) n"
    by simp
  also have "\<dots> = ?f (?T, ?ps) n"
    by (simp only: IH)
  also have "\<dots> = (?T + holding_value (items ! n) (fill_step (maps ! n) (lp ! n) date) ex,
       map (\<lambda>idx. if idx < Suc n then fill_step (maps ! idx) (lp ! idx) date else lp ! idx) [0..<length lp])"
  proof (cases "lookup_valid (maps ! n) date")
    case None
    have "?ps = map (\<lambda>idx. if idx < Suc n then fill_step (maps ! idx) (lp ! idx) date else lp ! idx) [0..<length lp]"
      using n None by (intro nth_equalityI) (auto simp: less_Suc_eq fill_step_def)
    then show ?thesis
      using None unfolding item_step_def Let_def fst_conv snd_conv old
      by (simp add: holding_value_def fill_step_def)
  next
    case (Some p)
    have "?ps[n := p] = map (\<lambda>idx. if idx < Suc n then fill_step (maps ! idx) (lp ! idx) date else lp ! idx) [0..<length lp]"
      using n Some by (intro nth_equalityI) (auto simp: less_Suc_eq fill_step_def nth_list_update)
    then show ?thesis
      using Some unfolding item_step_def Let_def fst_conv snd_conv old
      by (simp add: holding_value_def fill_step_def)
  qed
  finally show ?case by (simp add: add.assoc)
qed


lemma date_step_fields:
  assumes "length (lastPrices st) = length items"
  shows "lastExchange (date_step items fxm maps st date) = fill_step fxm (lastExchange st) date"
    and "lastPrices (date_step items fxm maps st date) =
           map (\<lambda>idx. fill_step (maps ! idx) (lastPrices st ! idx) date) [0..<length items]"
    and "portfolioValues (date_step items fxm maps st date) =
           portfolioValues st @
           [\<Sum>idx<length items. holding_value (items ! idx)
               (fill_step (maps ! idx) (lastPrices st ! idx) date)
               (fill_step fxm (lastExchange st) date)]"
    and "chartLabels (date_step items fxm maps st date) = chartLabels st @ [date]"
proof -
  have loop: "foldl (item_step items maps date ex) (0, lastPrices st) [0..<length items] =
     (\<Sum>idx<length items. holding_value (items ! idx) (fill_step (maps ! idx) (lastPrices st ! idx) date) ex,
      map (\<lambda>idx. fill_step (maps ! idx) (lastPrices st ! idx) date) [0..<length items])" for ex
    using item_loop[of "length items" "lastPrices st" items maps date ex 0] assms by simp
  show "lastExchange (date_step items fxm maps st date) = fill_step fxm (lastExchange st) date"
    by (simp add: date_step_def Let_def fill_step_def)
  show "lastPrices (date_step items fxm maps st date) =
           map (\<lambda>idx. fill_step (maps ! idx) (lastPrices st ! idx) date) [0..<length items]"
    unfolding date_step_def Let_def loop by simp
  show "portfolioValues (date_step items fxm maps st date) =
           portfolioValues st @
           [\<Sum>idx<length items. holding_value (items ! idx)
               (fill_step (maps ! idx) (lastPrices st ! idx) date)
               (fill_step fxm (lastExchange st) date)]"
    unfolding date_step_def Let_def loop by (simp add: fill_step_def)
  show "chartLabels (date_step items fxm maps st date) = chartLabels st @ [date]"
    by (simp add: date_step_def Let_def)
qed

lemma dates_loop:
  assumes "length (lastPrices st) = length items"
  shows "length (lastPrices (foldl (date_step items fxm maps) st ds)) = length items
    \<and> lastExchange (foldl (date_step items fxm maps) st ds) = foldl (fill_step fxm) (lastExchange st) ds
    \<and> (\<forall>idx<length items. lastPrices (foldl (date_step items fxm maps) st ds) ! idx =
          foldl (fill_step (maps ! idx)) (lastPrices st ! idx) ds)
    \<and> chartLabels (foldl (date_step items fxm maps) st ds) = chartLabels st @ ds
    \<and> portfolioValues (foldl (date_step items fxm maps) st ds) =
        portfolioValues st @
        map (\<lambda>k. \<Sum>idx<length items. holding_value (items ! idx)
                    (foldl (fill_step (maps ! idx)) (lastPrices st ! idx) (take (Suc k) ds))
                    (foldl (fill_step fxm) (lastExchange st) (take (Suc k) ds)))
          [0..<length ds]"
proof (induction ds rule: rev_induct)
  case Nil
  show ?case using assms by simp
next
  case (snoc d ds)
  let ?st = "foldl (date_step items fxm maps) st ds"
  from snoc have len: "length (lastPrices ?st) = length items"
    and ex: "lastExchange ?st = foldl (fill_step fxm) (lastExchange st) ds"
    and pr: "\<And>idx. idx < length items \<Longrightarrow> lastPrices ?st ! idx = foldl (fill_step (maps ! idx)) (lastPrices st ! idx) ds"
    and cl: "chartLabels ?st = chartLabels st @ ds"
    and pv: "portfolioValues ?st = portfolioValues st @
        map (\<lambda>k. \<Sum>idx<length items. holding_value (items ! idx)
                    (foldl (fill_step (maps ! idx)) (lastPrices st ! idx) (take (Suc k) ds))
                    (foldl (fill_step fxm) (lastExchange st) (take (Suc k) ds)))
          [0..<length ds]"
    by simp_all
  note f = date_step_fields[OF len, of fxm maps d]
  have new: "(\<Sum>idx<length items. holding_value (items ! idx)
               (fill_step (maps ! idx) (lastPrices ?st ! idx) d)
               (fill_step fxm (lastExchange ?st) d))
      = (\<Sum>idx<length items. holding_value (items ! idx)
                    (foldl (fill_step (maps ! idx)) (lastPrices st ! idx) (ds @ [d]))
                    (foldl (fill_step fxm) (lastExchange st) (ds @ [d])))"
    by (rule sum.cong) (simp_all add: pr ex)
  have old: "map (\<lambda>k. \<Sum>idx<length items. holding_value (items ! idx)
                    (foldl (fill_step (maps ! idx)) (lastPrices st ! idx) (take (Suc k) (ds @ [d])))
                    (foldl (fill_step fxm) (lastExchange st) (take (Suc k) (ds @ [d]))))
          [0..<length ds]
     = map (\<lambda>k. \<Sum>idx<length items. holding_value (items ! idx)
                    (foldl (fill_step (maps ! idx)) (lastPrices st ! idx) (take (Suc k) ds))
                    (foldl (fill_step fxm) (lastExchange st) (take (Suc k) ds)))
          [0..<length ds]"
    by (rule map_cong) simp_all
  show ?case
  proof (intro conjI allI impI)
    show "length (lastPrices (foldl (date_step items fxm maps) st (ds @ [d]))) = length items"
      by (simp add: f)
    show "lastExchange (foldl (date_step items fxm maps) st (ds @ [d])) = foldl (fill_step fxm) (lastExchange st) (ds @ [d])"
      by (simp add: f ex)
    show "chartLabels (foldl (date_step items fxm maps) st (ds @ [d])) = chartLabels st @ ds @ [d]"
      by (simp add: f cl)
    show "portfolioValues (foldl (date_step items fxm maps) st (ds @ [d])) =
        portfolioValues st @
        map (\<lambda>k. \<Sum>idx<length items. holding_value (items ! idx)
                    (foldl (fill_step (maps ! idx)) (lastPrices st ! idx) (take (Suc k) (ds @ [d])))
                    (foldl (fill_step fxm) (lastExchange st) (take (Suc k) (ds @ [d]))))
          [0..<length (ds @ [d])]"
      using old by (simp add: f pv new)
  next
    fix idx assume "idx < length items"
    then show "lastPrices (foldl (date_step items fxm maps) st (ds @ [d])) ! idx =
          foldl (fill_step (maps ! idx)) (lastPrices st ! idx) (ds @ [d])"
      by (simp add: f pr)
  qed
qed

lemma fill_filter:
  "foldl (fill_step m) init ds =
     (if filter (\<lambda>d. lookup_valid m d \<noteq> None) ds = [] then init
      else the (lookup_valid m (last (filter (\<lambda>d. lookup_valid m d \<noteq> None) ds))))"
  by (induction ds rule: rev_induct) (auto simp: fill_step_def split: option.splits)

lemma take_Suc_sorted:
  assumes "sorted_wrt (<) (axis :: string list)" "k < length axis"
  shows "take (Suc k) axis = filter (\<lambda>d'. d' \<le> axis ! k) axis"
proof -
  have a: "axis = take (Suc k) axis @ drop (Suc k) axis" by simp
  have 1: "\<forall>d'\<in>set (take (Suc k) axis). d' \<le> axis ! k"
  proof
    fix d' assume "d' \<in> set (take (Suc k) axis)"
    then obtain i where i: "i < Suc k" "d' = axis ! i"
      using assms(2) by (auto simp: in_set_conv_nth)
    show "d' \<le> axis ! k"
    proof (cases "i = k")
      case True
      with i show ?thesis by simp
    next
      case False
      with i have "i < k" by simp
      then have "axis ! i < axis ! k" using assms by (simp add: sorted_wrt_nth_less)
      with i show ?thesis by simp
    qed
  qed
  have 2: "\<forall>d'\<in>set (drop (Suc k) axis). \<not> d' \<le> axis ! k"
  proof
    fix d' assume "d' \<in> set (drop (Suc k) axis)"
    then obtain j where j: "j < length (drop (Suc k) axis)" "drop (Suc k) axis ! j = d'"
      by (meson in_set_conv_nth)
    define i where "i = Suc k + j"
    have i: "Suc k \<le> i" "i < length axis" "d' = axis ! i"
      using j by (simp_all add: i_def)
    then have "axis ! k < axis ! i" using assms by (simp add: sorted_wrt_nth_less)
    with i show "\<not> d' \<le> axis ! k" by simp
  qed
  have "filter (\<lambda>d'. d' \<le> axis ! k) axis =
      filter (\<lambda>d'. d' \<le> axis ! k) (take (Suc k) axis) @ filter (\<lambda>d'. d' \<le> axis ! k) (drop (Suc k) axis)"
    by (subst a) (simp only: filter_append)
  also have "\<dots> = take (Suc k) axis"
    using 1 2 by (simp add: filter_id_conv filter_empty_conv)
  finally show ?thesis by simp
qed

lemma last_sorted_Max:
  assumes "sorted (xs :: string list)" "xs \<noteq> []"
  shows "last xs = Max (set xs)"
proof -
  have "xs = butlast xs @ [last xs]" using assms(2) by simp
  then have "sorted (butlast xs @ [last xs])" using assms(1) by simp
  then have "\<forall>x\<in>set (butlast xs). x \<le> last xs" by (simp add: sorted_append)
  then have "\<forall>x\<in>set xs. x \<le> last xs"
    using \<open>xs = butlast xs @ [last xs]\<close> by (metis Un_iff insert_iff list.set(2) order_refl set_append empty_iff list.set(1))
  then show ?thesis
    using assms(2) by (intro Max_eqI[symmetric]) simp_all
qed

lemma fill_effective:
  assumes "sorted_wrt (<) (axis :: string list)" "k < length axis"
  shows "foldl (fill_step m) init (take (Suc k) axis) = effective m axis init (axis ! k)"
proof -
  let ?known = "filter (\<lambda>d'. d' \<le> axis ! k \<and> lookup_valid m d' \<noteq> None) axis"
  have k: "filter (\<lambda>d. lookup_valid m d \<noteq> None) (take (Suc k) axis) = ?known"
    unfolding take_Suc_sorted[OF assms] by (simp add: conj_commute)
  have "sorted axis" using assms(1) by (simp add: strict_sorted_iff)
  then have srt: "sorted ?known" by (rule sorted_wrt_filter)
  have "?known \<noteq> [] \<Longrightarrow> last ?known = Max (set ?known)"
    using srt by (rule last_sorted_Max)
  then show ?thesis
    unfolding fill_filter k effective_def Let_def by simp
qed

section \<open>Valuation of a date\<close>

lemma initial_len: "length (lastPrices (initial_state fx items)) = length items"
  by (simp add: initial_state_def)

lemma run_dates_facts:
  "length (lastPrices (run_dates tz fx items stocks ds)) = length items"
  "lastExchange (run_dates tz fx items stocks ds) = foldl (fill_step (dateMap tz fx)) (firstExchange fx) ds"
  "idx < length items \<Longrightarrow> lastPrices (run_dates tz fx items stocks ds) ! idx =
      foldl (fill_step (dateToStocks tz stocks ! idx)) 0 ds"
  "chartLabels (run_dates tz fx items stocks ds) = ds"
  "portfolioValues (run_dates tz fx items stocks ds) =
     map (\<lambda>k. \<Sum>idx<length items. holding_value (items ! idx)
                 (foldl (fill_step (dateToStocks tz stocks ! idx)) 0 (take (Suc k) ds))
                 (foldl (fill_step (dateMap tz fx)) (firstExchange fx) (take (Suc k) ds)))
       [0..<length ds]"
proof -
  note L = dates_loop[OF initial_len[of fx items], where fxm = "dateMap tz fx"
      and maps = "dateToStocks tz stocks" and ds = ds]
  show "length (lastPrices (run_dates tz fx items stocks ds)) = length items"
    using L unfolding run_dates_def by blast
  show "lastExchange (run_dates tz fx items stocks ds) = foldl (fill_step (dateMap tz fx)) (firstExchange fx) ds"
    using L unfolding run_dates_def by (simp add: initial_state_def)
  show "chartLabels (run_dates tz fx items stocks ds) = ds"
    using L unfolding run_dates_def by (simp add: initial_state_def)
  show "idx < length items \<Longrightarrow> lastPrices (run_dates tz fx items stocks ds) ! idx =
      foldl (fill_step (dateToStocks tz stocks ! idx)) 0 ds"
    using L unfolding run_dates_def by (simp add: initial_state_def)
  have "portfolioValues (run_dates tz fx items stocks ds) =
     map (\<lambda>k. \<Sum>idx<length items. holding_value (items ! idx)
                 (foldl (fill_step (dateToStocks tz stocks ! idx)) (lastPrices (initial_state fx items) ! idx) (take (Suc k) ds))
                 (foldl (fill_step (dateMap tz fx)) (firstExchange fx) (take (Suc k) ds)))
       [0..<length ds]"
    using L unfolding run_dates_def by (simp add: initial_state_def)
  also have "\<dots> = map (\<lambda>k. \<Sum>idx<length items. holding_value (items ! idx)
                 (foldl (fill_step (dateToStocks tz stocks ! idx)) 0 (take (Suc k) ds))
                 (foldl (fill_step (dateMap tz fx)) (firstExchange fx) (take (Suc k) ds)))
       [0..<length ds]"
    by (intro map_cong refl sum.cong) (simp add: initial_state_def)
  finally show "portfolioValues (run_dates tz fx items stocks ds) =
     map (\<lambda>k. \<Sum>idx<length items. holding_value (items ! idx)
                 (foldl (fill_step (dateToStocks tz stocks ! idx)) 0 (take (Suc k) ds))
                 (foldl (fill_step (dateMap tz fx)) (firstExchange fx) (take (Suc k) ds)))
       [0..<length ds]" .
qed

lemma state_at_price:
  assumes "k < length (sortedDates tz fx stocks)" "idx < length items"
  shows "lastPrices (state_at tz fx items stocks k) ! idx =
           effectivePrice tz fx stocks idx (sortedDates tz fx stocks ! k)"
  unfolding state_at_def effectivePrice_def run_dates_facts(3)[OF assms(2)]
  by (rule fill_effective[OF sortedDates_props(4) assms(1)])

lemma state_at_rate:
  assumes "k < length (sortedDates tz fx stocks)"
  shows "lastExchange (state_at tz fx items stocks k) =
           effectiveRate tz fx stocks (sortedDates tz fx stocks ! k)"
  unfolding state_at_def effectiveRate_def run_dates_facts(2)
  by (rule fill_effective[OF sortedDates_props(4) assms(1)])

lemma valuation_nth:
  assumes "k < length (sortedDates tz fx stocks)"
  shows "portfolioValues (valuation tz fx items stocks) ! k =
     (\<Sum>idx<length items. holding_value (items ! idx)
          (lastPrices (state_at tz fx items stocks k) ! idx)
          (lastExchange (state_at tz fx items stocks k)))"
proof -
  have "portfolioValues (valuation tz fx items stocks) ! k =
     (\<Sum>idx<length items. holding_value (items ! idx)
                 (foldl (fill_step (dateToStocks tz stocks ! idx)) 0 (take (Suc k) (sortedDates tz fx stocks)))
                 (foldl (fill_step (dateMap tz fx)) (firstExchange fx) (take (Suc k) (sortedDates tz fx stocks))))"
    unfolding valuation_def run_dates_facts(5) using assms by simp
  also have "\<dots> = (\<Sum>idx<length items. holding_value (items ! idx)
          (lastPrices (state_at tz fx items stocks k) ! idx)
          (lastExchange (state_at tz fx items stocks k)))"
    by (intro sum.cong refl) (simp add: state_at_def run_dates_facts)
  finally show ?thesis .
qed

lemma valuation_length:
  "length (portfolioValues (valuation tz fx items stocks)) = length (sortedDates tz fx stocks)"
  "chartLabels (valuation tz fx items stocks) = sortedDates tz fx stocks"
  unfolding valuation_def run_dates_facts by simp_all

lemma analyze_Inr:
  assumes "items \<noteq> []" "fetchHistory ''KRW=X'' rng = Some fx"
  shows "\<exists>a. analyzePortfolio tz fetchHistory items rng = Inr a
     \<and> valuationSeries a = portfolioValues (valuation tz fx items (stockResults fetchHistory items rng))
     \<and> axisLabels a = sortedDates tz fx (stockResults fetchHistory items rng)"
  using assms by (simp add: analyzePortfolio_def Let_def valuation_length)

lemma analyze_Inr_D:
  assumes "analyzePortfolio tz fetchHistory items rng = Inr a"
  shows "items \<noteq> [] \<and> (\<exists>fx. fetchHistory ''KRW=X'' rng = Some fx)"
  using assms by (auto simp: analyzePortfolio_def split: if_splits option.splits)

lemma holding_value_mult:
  "holding_value it p (effectiveRate tz fx stocks d) = p * quantity it * fxMultiplier tz fx stocks it d"
  by (simp add: holding_value_def fxMultiplier_def)

text \<open>
  Claim C1. When the analysis runs (there is a holding and the FX series was fetched),
  it has one valuation per axis date, and each is the sum over the holdings of the
  forward-filled price times the quantity times the FX multiplier: 1 for a symbol ending
  in .KS or .KQ, and the forward-filled FX rate otherwise.
\<close>

theorem valuation_is_weighted_sum:
  assumes "items \<noteq> []" and "fetchHistory ''KRW=X'' rng = Some fx"
  shows "\<exists>a. analyzePortfolio tz fetchHistory items rng = Inr a
     \<and> axisLabels a = sortedDates tz fx (stockResults fetchHistory items rng)
     \<and> length (valuationSeries a) = length (axisLabels a)
     \<and> (\<forall>k<length (axisLabels a). valuationSeries a ! k =
          (\<Sum>idx<length items.
             effectivePrice tz fx (stockResults fetchHistory items rng) idx (axisLabels a ! k)
             * quantity (items ! idx)
             * fxMultiplier tz fx (stockResults fetchHistory items rng) (items ! idx) (axisLabels a ! k)))"
proof -
  let ?stocks = "stockResults fetchHistory items rng"
  from analyze_Inr[where fetchHistory = fetchHistory and items = items and rng = rng and fx = fx and tz = tz]
    assms obtain a where a: "analyzePortfolio tz fetchHistory items rng = Inr a"
    "valuationSeries a = portfolioValues (valuation tz fx items ?stocks)"
    "axisLabels a = sortedDates tz fx ?stocks" by blast
  have "valuationSeries a ! k =
          (\<Sum>idx<length items. effectivePrice tz fx ?stocks idx (axisLabels a ! k) * quantity (items ! idx)
             * fxMultiplier tz fx ?stocks (items ! idx) (axisLabels a ! k))"
    if k: "k < length (axisLabels a)" for k
  proof -
    from k have k': "k < length (sortedDates tz fx ?stocks)" by (simp add: a)
    show ?thesis
      unfolding a(2) valuation_nth[OF k'] state_at_rate[OF k'] holding_value_mult a(3)
      by (intro sum.cong refl) (simp add: state_at_price[OF k'])
  qed
  with a show ?thesis by (auto simp: valuation_length)
qed

text \<open>
  Claim C2. The axis is the sorted union of the date keys of all timestamps observed in
  the FX series and the stock series: it has exactly these keys, as many entries as
  there are distinct keys, it is strictly increasing and has no duplicate. It is the
  list of labels of a successful analysis.
\<close>

theorem unified_axis:
  "set (sortedDates tz fx stocks) = ymd tz ` all_timestamps fx stocks
   \<and> length (sortedDates tz fx stocks) = card (ymd tz ` all_timestamps fx stocks)
   \<and> sorted_wrt (<) (sortedDates tz fx stocks)
   \<and> distinct (sortedDates tz fx stocks)
   \<and> (analyzePortfolio tz fetchHistory items rng = Inr a \<longrightarrow>
        (\<exists>ex. fetchHistory ''KRW=X'' rng = Some ex
           \<and> axisLabels a = sortedDates tz ex (stockResults fetchHistory items rng)))"
proof -
  have "analyzePortfolio tz fetchHistory items rng = Inr a \<longrightarrow>
        (\<exists>ex. fetchHistory ''KRW=X'' rng = Some ex
           \<and> axisLabels a = sortedDates tz ex (stockResults fetchHistory items rng))"
  proof
    assume r: "analyzePortfolio tz fetchHistory items rng = Inr a"
    from analyze_Inr_D[OF r] obtain ex where ex: "items \<noteq> []" "fetchHistory ''KRW=X'' rng = Some ex"
      by blast
    from analyze_Inr[where fetchHistory = fetchHistory and items = items and rng = rng and fx = ex and tz = tz] ex r
    show "\<exists>ex. fetchHistory ''KRW=X'' rng = Some ex
           \<and> axisLabels a = sortedDates tz ex (stockResults fetchHistory items rng)"
      using ex by auto
  qed
  then show ?thesis by (simp add: sortedDates_props)
qed

section \<open>Forward-filled prices and FX rates\<close>

lemma fill_none:
  "\<forall>d\<in>set ds. lookup_valid m d = None \<Longrightarrow> foldl (fill_step m) init ds = init"
  by (induction ds arbitrary: init) (simp_all add: fill_step_def)

lemma fill_last_valid:
  "lookup_valid m d = Some x \<Longrightarrow> \<forall>d'\<in>set post. lookup_valid m d' = None \<Longrightarrow>
   foldl (fill_step m) init (pre @ d # post) = x"
  by (simp add: fill_none fill_step_def)

lemma take_as_map:
  assumes "n \<le> length xs"
  shows "take n xs = map (\<lambda>i. xs ! i) [0..<n]"
proof -
  have "take n xs = take n (map (\<lambda>i. xs ! i) [0..<length xs])" by (simp add: map_nth)
  also have "\<dots> = map (\<lambda>i. xs ! i) (take n [0..<length xs])" by (rule take_map)
  also have "take n [0..<length xs] = [0..<n]" using assms by (simp add: take_upt)
  finally show ?thesis .
qed

lemma take_Suc_split:
  assumes "j \<le> k" "k < length xs"
  shows "take (Suc k) xs = take j xs @ xs ! j # map (\<lambda>i. xs ! i) [Suc j..<Suc k]"
proof -
  have u: "[0..<Suc k] = [0..<j] @ j # [Suc j..<Suc k]"
  proof -
    have "[0..<j + (Suc k - j)] = [0..<j] @ [j..<j + (Suc k - j)]"
      by (rule upt_add_eq_append) simp
    moreover have "j + (Suc k - j) = Suc k" using assms(1) by simp
    moreover have "[j..<Suc k] = j # [Suc j..<Suc k]" using assms(1) by (simp add: upt_conv_Cons)
    ultimately show ?thesis by simp
  qed
  have "take (Suc k) xs = map (\<lambda>i. xs ! i) [0..<Suc k]"
    using assms by (intro take_as_map) simp
  also have "\<dots> = map (\<lambda>i. xs ! i) [0..<j] @ xs ! j # map (\<lambda>i. xs ! i) [Suc j..<Suc k]"
    unfolding u by simp
  also have "map (\<lambda>i. xs ! i) [0..<j] = take j xs"
    using assms by (intro take_as_map[symmetric]) simp
  finally show ?thesis .
qed

lemma dom_dateMap_fold:
  "dom (foldl (\<lambda>m (t, c). m(ymd tz t \<mapsto> c)) m0 r) = dom m0 \<union> ymd tz ` fst ` set r"
  by (induction r arbitrary: m0) (auto simp: image_iff)

lemma dom_dateMap: "dom (dateMap tz r) = ymd tz ` fst ` set r"
  by (simp add: dateMap_def dom_dateMap_fold)

lemma stock_timestamps:
  assumes "idx < length stocks" "stocks ! idx = Some r"
  shows "fst ` set r \<subseteq> all_timestamps fx stocks"
proof -
  have "Some r \<in> set stocks" using assms by (metis nth_mem)
  then have "fst ` set r \<subseteq> (\<Union>res\<in>set stocks. case res of None \<Rightarrow> {} | Some r \<Rightarrow> fst ` set r)"
    by (intro UN_upper[of "Some r" "set stocks" "\<lambda>res. case res of None \<Rightarrow> {} | Some r \<Rightarrow> fst ` set r", simplified])
  then show ?thesis unfolding all_timestamps_def by blast
qed

lemma lookup_valid_axis:
  assumes "idx < length stocks" "lookup_valid (dateToStocks tz stocks ! idx) d = Some p"
  shows "d \<in> set (sortedDates tz fx stocks)"
proof -
  have m: "dateToStocks tz stocks ! idx = (case stocks ! idx of None \<Rightarrow> Map.empty | Some r \<Rightarrow> dateMap tz r)"
    using assms(1) by (simp add: dateToStocks_def)
  from assms(2) have d: "d \<in> dom (dateToStocks tz stocks ! idx)"
    by (auto simp: lookup_valid_def split: option.splits)
  show ?thesis
  proof (cases "stocks ! idx")
    case None
    with d m show ?thesis by simp
  next
    case (Some r)
    with d m have "d \<in> ymd tz ` fst ` set r" by (simp add: dom_dateMap)
    moreover have "fst ` set r \<subseteq> all_timestamps fx stocks"
      by (rule stock_timestamps[OF assms(1) Some])
    ultimately have "d \<in> ymd tz ` all_timestamps fx stocks" by blast
    then show ?thesis by (simp add: sortedDates_props)
  qed
qed

lemma lookup_valid_fx_axis:
  assumes "lookup_valid (dateMap tz fx) d = Some p"
  shows "d \<in> set (sortedDates tz fx stocks)"
proof -
  from assms have "d \<in> dom (dateMap tz fx)"
    by (auto simp: lookup_valid_def split: option.splits)
  then have "d \<in> ymd tz ` all_timestamps fx stocks"
    unfolding all_timestamps_def dom_dateMap by auto
  then show ?thesis by (simp add: sortedDates_props)
qed

lemma effective_between:
  assumes "d1 \<in> set axis" "lookup_valid m d1 = Some p1" "d1 \<le> d"
    and "\<forall>d'\<in>set axis. d1 < d' \<and> d' \<le> d \<longrightarrow> lookup_valid m d' = None"
  shows "effective m axis dflt d = p1"
proof -
  let ?known = "filter (\<lambda>d'. d' \<le> d \<and> lookup_valid m d' \<noteq> None) axis"
  have in1: "d1 \<in> set ?known" using assms(1-3) by simp
  have "\<forall>d'\<in>set ?known. d' \<le> d1"
  proof
    fix d' assume "d' \<in> set ?known"
    then have "d' \<in> set axis" "d' \<le> d" "lookup_valid m d' \<noteq> None" by simp_all
    with assms(4) show "d' \<le> d1" by (meson not_le_imp_less)
  qed
  with in1 have "Max (set ?known) = d1" by (intro Max_eqI) simp_all
  moreover have "?known \<noteq> []" using in1 by (metis empty_iff list.set(1))
  ultimately show ?thesis
    unfolding effective_def Let_def using assms(2) by simp
qed

lemma effective_none:
  assumes "\<forall>d'\<in>set axis. d' \<le> d \<longrightarrow> lookup_valid m d' = None"
  shows "effective m axis dflt d = dflt"
proof -
  have "filter (\<lambda>d'. d' \<le> d \<and> lookup_valid m d' \<noteq> None) axis = []"
    using assms by (simp add: filter_empty_conv)
  then show ?thesis by (simp add: effective_def)
qed

lemma state_at_unchanged:
  assumes "k < length (sortedDates tz fx stocks)" "idx < length items"
    and "lookup_valid (dateToStocks tz stocks ! idx) (sortedDates tz fx stocks ! k) = None"
  shows "lastPrices (state_at tz fx items stocks k) ! idx =
     (if k = 0 then 0 else lastPrices (state_at tz fx items stocks (k - 1)) ! idx)"
proof -
  let ?axis = "sortedDates tz fx stocks"
  have t: "take (Suc k) ?axis = take k ?axis @ [?axis ! k]"
    using assms(1) by (simp add: take_Suc_conv_app_nth)
  show ?thesis
  proof (cases k)
    case 0
    then show ?thesis
      unfolding state_at_def run_dates_facts(3)[OF assms(2)] t using assms(3)
      by (simp add: fill_step_def)
  next
    case (Suc n)
    then show ?thesis
      unfolding state_at_def run_dates_facts(3)[OF assms(2)] t using assms(3)
      by (simp add: fill_step_def)
  qed
qed

text \<open>
  Claim C3. The price the loop uses for a holding at an axis date: between two valid
  observations \<open>d1 < d2\<close> with no valid observation strictly between them, at any axis
  date in \<open>[d1, d2)\<close> it is the price observed at \<open>d1\<close>; at a date where the holding
  has a null close or no entry it is the price of the previous axis date (0 at the
  first); and at every date up to which the holding has no valid observation it is 0, and
  so is the holding's value. The valuation of the date is computed from exactly these prices.
\<close>

theorem forward_fill_prices:
  assumes "k < length (sortedDates tz fx stocks)" and "idx < length items" and "idx < length stocks"
  shows "(lookup_valid (dateToStocks tz stocks ! idx) d1 = Some p1
          \<and> lookup_valid (dateToStocks tz stocks ! idx) d2 = Some p2
          \<and> d1 < d2
          \<and> (\<forall>d'. d1 < d' \<and> d' < d2 \<longrightarrow> lookup_valid (dateToStocks tz stocks ! idx) d' = None)
          \<and> d1 \<le> sortedDates tz fx stocks ! k \<and> sortedDates tz fx stocks ! k < d2
          \<longrightarrow> lastPrices (state_at tz fx items stocks k) ! idx = p1)
     \<and> (lookup_valid (dateToStocks tz stocks ! idx) (sortedDates tz fx stocks ! k) = None
          \<longrightarrow> lastPrices (state_at tz fx items stocks k) ! idx =
               (if k = 0 then 0 else lastPrices (state_at tz fx items stocks (k - 1)) ! idx))
     \<and> ((\<forall>d'. d' \<le> sortedDates tz fx stocks ! k \<longrightarrow> lookup_valid (dateToStocks tz stocks ! idx) d' = None)
          \<longrightarrow> lastPrices (state_at tz fx items stocks k) ! idx = 0
              \<and> holding_value (items ! idx) (lastPrices (state_at tz fx items stocks k) ! idx)
                    (lastExchange (state_at tz fx items stocks k)) = 0)
     \<and> portfolioValues (valuation tz fx items stocks) ! k =
          (\<Sum>i<length items. holding_value (items ! i)
             (lastPrices (state_at tz fx items stocks k) ! i)
             (lastExchange (state_at tz fx items stocks k)))"
proof (intro conjI impI)
  let ?m = "dateToStocks tz stocks ! idx"
  let ?axis = "sortedDates tz fx stocks"
  note price = state_at_price[OF assms(1,2), unfolded effectivePrice_def]
  {
    assume a: "lookup_valid ?m d1 = Some p1 \<and> lookup_valid ?m d2 = Some p2 \<and> d1 < d2
          \<and> (\<forall>d'. d1 < d' \<and> d' < d2 \<longrightarrow> lookup_valid ?m d' = None)
          \<and> d1 \<le> ?axis ! k \<and> ?axis ! k < d2"
    then have "d1 \<in> set ?axis" using lookup_valid_axis[OF assms(3)] by blast
    moreover have "\<forall>d'\<in>set ?axis. d1 < d' \<and> d' \<le> ?axis ! k \<longrightarrow> lookup_valid ?m d' = None"
      using a by (meson le_less_trans)
    ultimately show "lastPrices (state_at tz fx items stocks k) ! idx = p1"
      unfolding price using a by (intro effective_between) simp_all
  }
  {
    assume "lookup_valid ?m (?axis ! k) = None"
    then show "lastPrices (state_at tz fx items stocks k) ! idx =
               (if k = 0 then 0 else lastPrices (state_at tz fx items stocks (k - 1)) ! idx)"
      by (rule state_at_unchanged[OF assms(1,2)])
  }
  {
    assume "\<forall>d'. d' \<le> ?axis ! k \<longrightarrow> lookup_valid ?m d' = None"
    then show z: "lastPrices (state_at tz fx items stocks k) ! idx = 0"
      unfolding price by (intro effective_none) simp
    show "holding_value (items ! idx) (lastPrices (state_at tz fx items stocks k) ! idx)
            (lastExchange (state_at tz fx items stocks k)) = 0"
      unfolding z by (simp add: holding_value_def)
  }
  show "portfolioValues (valuation tz fx items stocks) ! k =
          (\<Sum>i<length items. holding_value (items ! i)
             (lastPrices (state_at tz fx items stocks k) ! i)
             (lastExchange (state_at tz fx items stocks k)))"
    by (rule valuation_nth[OF assms(1)])
qed

text \<open>
  Claim C7, as amended. At an axis date up to which the FX lookup has no valid
  observation, the FX rate applied is the initial rate: the first close of the FX array,
  and 1200 only when that close is missing, null or 0. From the first valid FX
  observation on, the rate is the latest valid observation at or before the date.
\<close>

theorem exchange_fallback:
  assumes "k < length (sortedDates tz fx stocks)"
  shows "((\<forall>j\<le>k. lookup_valid (dateMap tz fx) (sortedDates tz fx stocks ! j) = None)
          \<longrightarrow> lastExchange (state_at tz fx items stocks k) = firstExchange fx)
     \<and> (j \<le> k \<and> lookup_valid (dateMap tz fx) (sortedDates tz fx stocks ! j) = Some x
          \<and> (\<forall>i. j < i \<and> i \<le> k \<longrightarrow> lookup_valid (dateMap tz fx) (sortedDates tz fx stocks ! i) = None)
          \<longrightarrow> lastExchange (state_at tz fx items stocks k) = x)
     \<and> (fx = [] \<or> snd (hd fx) = None \<or> snd (hd fx) = Some 0 \<longrightarrow> firstExchange fx = 1200)
     \<and> (fx \<noteq> [] \<and> snd (hd fx) = Some y \<and> y \<noteq> 0 \<longrightarrow> firstExchange fx = y)"
proof (intro conjI impI)
  let ?m = "dateMap tz fx"
  let ?axis = "sortedDates tz fx stocks"
  have ex: "lastExchange (state_at tz fx items stocks k) = foldl (fill_step ?m) (firstExchange fx) (take (Suc k) ?axis)"
    by (simp add: state_at_def run_dates_facts)
  {
    assume a: "\<forall>j\<le>k. lookup_valid ?m (?axis ! j) = None"
    have "\<forall>d\<in>set (take (Suc k) ?axis). lookup_valid ?m d = None"
    proof
      fix d assume "d \<in> set (take (Suc k) ?axis)"
      then obtain i where "i < Suc k" "d = ?axis ! i"
        using assms by (auto simp: in_set_conv_nth)
      with a show "lookup_valid ?m d = None" by simp
    qed
    then show "lastExchange (state_at tz fx items stocks k) = firstExchange fx"
      unfolding ex by (rule fill_none)
  }
  {
    assume a: "j \<le> k \<and> lookup_valid ?m (?axis ! j) = Some x
          \<and> (\<forall>i. j < i \<and> i \<le> k \<longrightarrow> lookup_valid ?m (?axis ! i) = None)"
    then have t: "take (Suc k) ?axis = take j ?axis @ ?axis ! j # map (\<lambda>i. ?axis ! i) [Suc j..<Suc k]"
      using assms by (intro take_Suc_split) simp_all
    have "\<forall>d'\<in>set (map (\<lambda>i. ?axis ! i) [Suc j..<Suc k]). lookup_valid ?m d' = None"
      using a by auto
    with a show "lastExchange (state_at tz fx items stocks k) = x"
      unfolding ex t by (intro fill_last_valid) simp_all
  }
  {
    assume "fx = [] \<or> snd (hd fx) = None \<or> snd (hd fx) = Some 0"
    then show "firstExchange fx = 1200"
      by (auto simp: firstExchange_def split: list.splits option.splits)
  }
  {
    assume "fx \<noteq> [] \<and> snd (hd fx) = Some y \<and> y \<noteq> 0"
    then show "firstExchange fx = y"
      by (auto simp: firstExchange_def split: list.splits option.splits)
  }
qed

section \<open>The four-day scenario, evaluated\<close>

lemma show_nat_lt10: "n < 10 \<Longrightarrow> show_nat n = [''0123456789'' ! n]"
  by (simp add: show_nat.simps)

lemma show_nat_ge10: "10 \<le> n \<Longrightarrow> show_nat n = show_nat (n div 10) @ [''0123456789'' ! (n mod 10)]"
  by (subst show_nat.simps) simp

lemmas fmt = show_nat_lt10 show_nat_ge10 show_int_def padStart2_def
lemmas civ = civil_def civil_year_def civil_month_def civil_day_def month_index_def
  day_of_year_def year_of_era_def

lemma day_keys:
  "ymd 0 0 = ''1970-01-01''"
  "ymd 0 86400 = ''1970-01-02''"
  "ymd 0 90000 = ''1970-01-02''"
  "ymd 0 172800 = ''1970-01-03''"
  "ymd 0 259200 = ''1970-01-04''"
  by (simp_all add: ymd_def civ fmt)

lemmas pipeline = sortedDates_def allDatesSet_def Set_add_def dateMap_def dateToStocks_def
  lookup_valid_def valuation_def run_dates_def initial_state_def firstExchange_def date_step_def
  item_step_def isKRW_def endsWith_def stockResults_def upt_conv_Cons Let_def day_keys

lemmas scenario = fxS_def stockA_def stockB_def fetchS_def itemsS_def itemsA_def stockEarly_def
  fxLate_def fxDup1_def fxDup2_def

lemma stocks_S: "stockResults fetchS itemsS rng = [Some stockA, Some stockB]"
  by (simp add: stockResults_def fetchS_def itemsS_def)

lemma axis_S: "sortedDates 0 fxS [Some stockA, Some stockB] = [''1970-01-01'', ''1970-01-02'', ''1970-01-03'', ''1970-01-04'']"
  by (simp add: pipeline scenario)

lemma valuation_S:
  "valuation 0 fxS itemsS [Some stockA, Some stockB] =
     \<lparr>lastExchange = 1310, lastPrices = [12, 5100],
      portfolioValues = [5000, 31000, 31200, 36540],
      chartLabels = [''1970-01-01'', ''1970-01-02'', ''1970-01-03'', ''1970-01-04'']\<rparr>"
  by (simp add: pipeline scenario)


lemma fetch_fx_S: "fetchS ''KRW=X'' rng = Some fxS"
  by (simp add: fetchS_def)

lemma metrics_S:
  "totalReturn [5000, 31000, 31200, 36540] = Num (3154 / 5)"
  "cagr ''1y'' [5000, 31000, 31200, 36540] = Num (3154 / 5)"
  "maxDrawdown [Num 5000, Num 31000, Num 31200, Num 36540] = Num 0"
  by (simp_all add: totalReturn_def cagr_def initialValue_def finalValue_def jsnum_ops
      years_of_def rangeMap_def inheritedMembers_def maxDrawdown_def mdd_loop_def mdd_step_def Let_def)

lemma toFixed_S:
  "toFixed2 (Num (3154 / 5)) = ''630.80''"
  "toFixed2 (Num 0) = ''0.00''"
  by (simp_all add: toFixed2_def fmt Let_def)

lemma analysis_S:
  "analyzePortfolio 0 fetchS itemsS ''1y'' =
     Inr \<lparr>valuationSeries = [5000, 31000, 31200, 36540],
          axisLabels = [''1970-01-01'', ''1970-01-02'', ''1970-01-03'', ''1970-01-04''],
          totalReturnPct = Num (3154 / 5),
          cagrPct = Num (3154 / 5),
          maxDrawdownPct = Num 0,
          statReturn = ''630.80%'',
          statCagr = ''630.80%'',
          statMdd = ''0.00%'',
          startValues = [(''Apple'', 0), (''Samsung'', 5000)],
          endValues = [(''Apple'', 31440), (''Samsung'', 5100)]\<rparr>"
proof -
  have m: "dateMap 0 fxS ''1970-01-01'' = Some (Some 1300)"
    "dateToStocks 0 [Some stockA, Some stockB] ! 0 = dateMap 0 stockA"
    "dateToStocks 0 [Some stockA, Some stockB] ! Suc 0 = dateMap 0 stockB"
    "dateMap 0 stockA ''1970-01-01'' = None"
    "dateMap 0 stockB ''1970-01-01'' = Some (Some 5000)"
    by (simp_all add: dateMap_def dateToStocks_def scenario day_keys)
  have items: "itemsS \<noteq> []" "length itemsS = 2"
    "itemsS ! 0 = \<lparr>symbol = ''AAPL'', name = ''Apple'', quantity = 2\<rparr>"
    "itemsS ! Suc 0 = \<lparr>symbol = ''005930.KS'', name = ''Samsung'', quantity = 1\<rparr>"
    by (simp_all add: itemsS_def)
  show ?thesis
    by (simp add: analyzePortfolio_def Let_def fetch_fx_S stocks_S valuation_S axis_S
        items metrics_S jsnum_ops toFixed_S upt_conv_Cons startValue_def endValue_def m
        isKRW_def endsWith_def toNumber_def)
qed

text \<open>
  Scenario C inside the four-day scenario: on 1970-01-02 the foreign holding has price
  10 at FX 1300 with quantity 2, and the domestic one price 5000 with quantity 1.
\<close>

theorem valuation_is_weighted_sum_witness:
  "analyzePortfolio 0 fetchS itemsS ''1y'' \<noteq> Inl NoItems
   \<and> valuationSeries (projr (analyzePortfolio 0 fetchS itemsS ''1y'')) ! 1 = 31000
   \<and> (\<Sum>idx<length itemsS.
         effectivePrice 0 fxS (stockResults fetchS itemsS ''1y'') idx ''1970-01-02''
         * quantity (itemsS ! idx)
         * fxMultiplier 0 fxS (stockResults fetchS itemsS ''1y'') (itemsS ! idx) ''1970-01-02'') = 31000"
proof -
  have "itemsS \<noteq> []" by (simp add: itemsS_def)
  from valuation_is_weighted_sum[where fetchHistory = fetchS and items = itemsS and rng = "''1y''"
      and fx = fxS and tz = 0, OF this fetch_fx_S]
  obtain a where a: "analyzePortfolio 0 fetchS itemsS ''1y'' = Inr a"
    and s: "\<forall>k<length (axisLabels a). valuationSeries a ! k =
          (\<Sum>idx<length itemsS.
             effectivePrice 0 fxS (stockResults fetchS itemsS ''1y'') idx (axisLabels a ! k)
             * quantity (itemsS ! idx)
             * fxMultiplier 0 fxS (stockResults fetchS itemsS ''1y'') (itemsS ! idx) (axisLabels a ! k))"
    by blast
  from a have v: "valuationSeries a = [5000, 31000, 31200, 36540]"
    "axisLabels a = [''1970-01-01'', ''1970-01-02'', ''1970-01-03'', ''1970-01-04'']"
    by (auto simp: analysis_S)
  have "1 < length (axisLabels a)" by (simp add: v)
  from s[rule_format, OF this]
  show ?thesis using a by (simp add: v)
qed

theorem unified_axis_witness:
  "set (sortedDates 0 fxS [Some stockA, Some stockB]) = ymd 0 ` all_timestamps fxS [Some stockA, Some stockB]
   \<and> length (sortedDates 0 fxS [Some stockA, Some stockB]) = 4
   \<and> card (ymd 0 ` all_timestamps fxS [Some stockA, Some stockB]) = 4
   \<and> sortedDates 0 fxS [Some stockA, Some stockB] = [''1970-01-01'', ''1970-01-02'', ''1970-01-03'', ''1970-01-04'']
   \<and> axisLabels (projr (analyzePortfolio 0 fetchS itemsS ''1y'')) = sortedDates 0 fxS (stockResults fetchS itemsS ''1y'')"
  using unified_axis[of 0 fxS "[Some stockA, Some stockB]" fetchS itemsS "''1y''"
      "projr (analyzePortfolio 0 fetchS itemsS ''1y'')"]
  by (simp add: analysis_S axis_S stocks_S)

lemma maps_S:
  "dateToStocks 0 [Some stockA, Some stockB] ! 0 =
     [''1970-01-02'' \<mapsto> Some 10, ''1970-01-03'' \<mapsto> None, ''1970-01-04'' \<mapsto> Some 12]"
  "dateMap 0 fxS = [''1970-01-01'' \<mapsto> Some 1300, ''1970-01-02'' \<mapsto> None, ''1970-01-03'' \<mapsto> Some 1310]"
  by (simp_all add: dateToStocks_def dateMap_def scenario day_keys)

lemma day_order:
  "''1970-01-01'' < ''1970-01-02''" "''1970-01-02'' < ''1970-01-03''"
  "''1970-01-03'' < ''1970-01-04''" "''1970-01-02'' < ''1970-01-04''"
  "''1970-01-01'' < ''1970-01-03''" "''1970-01-01'' < ''1970-01-04''"
  by simp_all

theorem forward_fill_prices_witness:
  "lastPrices (state_at 0 fxS itemsS [Some stockA, Some stockB] 2) ! 0 = 10
   \<and> lastPrices (state_at 0 fxS itemsS [Some stockA, Some stockB] 2) ! 0 =
       lastPrices (state_at 0 fxS itemsS [Some stockA, Some stockB] 1) ! 0
   \<and> lastPrices (state_at 0 fxS itemsS [Some stockA, Some stockB] 0) ! 0 = 0"
proof -
  let ?m = "dateToStocks 0 [Some stockA, Some stockB] ! 0"
  let ?axis = "sortedDates 0 fxS [Some stockA, Some stockB]"
  have len: "2 < length ?axis" "0 < length ?axis" "(0::nat) < length itemsS"
    "(0::nat) < length [Some stockA, Some stockB]"
    by (simp_all add: axis_S itemsS_def)
  have ax: "?axis ! 2 = ''1970-01-03''" "?axis ! 0 = ''1970-01-01''"
    by (simp_all add: axis_S)
  have between: "\<forall>d'. ''1970-01-02'' < d' \<and> d' < ''1970-01-04'' \<longrightarrow> lookup_valid ?m d' = None"
    by (auto simp: maps_S lookup_valid_def)
  have before: "\<forall>d'. d' \<le> ''1970-01-01'' \<longrightarrow> lookup_valid ?m d' = None"
    using day_order by (auto simp: maps_S lookup_valid_def)
  have obs: "lookup_valid ?m ''1970-01-02'' = Some 10" "lookup_valid ?m ''1970-01-04'' = Some 12"
    "lookup_valid ?m ''1970-01-03'' = None"
    by (simp_all add: maps_S lookup_valid_def)
  from forward_fill_prices[where ?d1.0 = "''1970-01-02''" and ?p1.0 = 10 and ?d2.0 = "''1970-01-04''"
        and ?p2.0 = 12, OF len(1) len(3) len(4)]
    forward_fill_prices[where ?d1.0 = "''1970-01-02''" and ?p1.0 = 10 and ?d2.0 = "''1970-01-04''"
        and ?p2.0 = 12, OF len(2) len(3) len(4)]
  show ?thesis
    unfolding ax using between before obs day_order by simp
qed

lemma axis_late: "sortedDates 0 fxLate [Some stockEarly] = [''1970-01-01'', ''1970-01-02'']"
  by (simp add: pipeline scenario)

lemma map_late: "dateMap 0 fxLate = [''1970-01-02'' \<mapsto> Some 1300]"
  by (simp add: dateMap_def scenario day_keys)

theorem exchange_fallback_witness:
  "lastExchange (state_at 0 fxS itemsS [Some stockA, Some stockB] 1) = 1300
   \<and> lastExchange (state_at 0 fxLate itemsA [Some stockEarly] 0) = firstExchange fxLate
   \<and> firstExchange [] = 1200
   \<and> firstExchange fxLate = 1300"
proof -
  have 1: "1 < length (sortedDates 0 fxS [Some stockA, Some stockB])"
    and 2: "0 < length (sortedDates 0 fxLate [Some stockEarly])"
    by (simp_all add: axis_S axis_late)
  have a: "lookup_valid (dateMap 0 fxS) (sortedDates 0 fxS [Some stockA, Some stockB] ! 0) = Some 1300"
    "\<forall>i. 0 < i \<and> i \<le> 1 \<longrightarrow>
        lookup_valid (dateMap 0 fxS) (sortedDates 0 fxS [Some stockA, Some stockB] ! i) = None"
    by (auto simp: axis_S maps_S lookup_valid_def le_Suc_eq)
  have b: "\<forall>j\<le>0. lookup_valid (dateMap 0 fxLate) (sortedDates 0 fxLate [Some stockEarly] ! j) = None"
    by (simp add: axis_late map_late lookup_valid_def)
  have c: "fxLate \<noteq> [] \<and> snd (hd fxLate) = Some 1300 \<and> (1300::real) \<noteq> 0"
    by (simp add: fxLate_def)
  from exchange_fallback[where j = 0 and x = 1300 and items = itemsS and y = 1300, OF 1]
    exchange_fallback[where j = 0 and x = 1300 and items = itemsA and y = 1300, OF 2]
  show ?thesis using a b c by (simp add: firstExchange_def)
qed

text \<open>
  Claim C7 as stated fails: the FX series starts a day after the stock, and on the first
  axis date, which has no FX observation, the rate applied is 1300, not 1200.
\<close>

theorem exchange_not_default_counterexample:
  "lookup_valid (dateMap 0 fxLate) (sortedDates 0 fxLate [Some stockEarly] ! 0) = None
   \<and> lastExchange (state_at 0 fxLate itemsA [Some stockEarly] 0) = 1300
   \<and> portfolioValues (valuation 0 fxLate itemsA [Some stockEarly]) = [26000, 26000]"
  by (simp add: axis_late map_late lookup_valid_def state_at_def pipeline scenario)

section \<open>Composition snapshots, start and end\<close>

lemma valuation_last_state:
  assumes "sortedDates tz fx stocks \<noteq> []"
  shows "valuation tz fx items stocks =
         state_at tz fx items stocks (length (sortedDates tz fx stocks) - 1)"
  using assms by (simp add: valuation_def state_at_def)

lemma valuation_empty_axis:
  assumes "sortedDates tz fx stocks = []" "idx < length items"
  shows "lastPrices (valuation tz fx items stocks) ! idx = 0"
  using assms by (simp add: valuation_def run_dates_def initial_state_def)

lemma endValue_formula:
  "endValue ex p it = (if 0 < p then holding_value it p ex else 0)"
  by (simp add: endValue_def holding_value_def)

lemma end_snapshot:
  assumes "idx < length items"
  shows "endValue (lastExchange (valuation tz fx items stocks))
           (lastPrices (valuation tz fx items stocks) ! idx) (items ! idx) =
     (if sortedDates tz fx stocks = [] then 0
      else if 0 < effectivePrice tz fx stocks idx (last (sortedDates tz fx stocks))
      then effectivePrice tz fx stocks idx (last (sortedDates tz fx stocks)) * quantity (items ! idx)
           * fxMultiplier tz fx stocks (items ! idx) (last (sortedDates tz fx stocks))
      else 0)"
proof (cases "sortedDates tz fx stocks = []")
  case True
  then show ?thesis
    by (simp add: valuation_empty_axis[OF True assms] endValue_def)
next
  case False
  let ?axis = "sortedDates tz fx stocks"
  let ?k = "length ?axis - 1"
  have k: "?k < length ?axis" using False by simp
  have l: "?axis ! ?k = last ?axis" using False by (simp add: last_conv_nth)
  show ?thesis
    unfolding valuation_last_state[OF False] state_at_price[OF k assms] state_at_rate[OF k] l
      endValue_formula holding_value_mult
    using False by simp
qed

lemma start_cases:
  "startValue fxm pm [] it = 0"
  "lookup_valid pm d0 = None \<Longrightarrow> startValue fxm pm (d0 # rest) it = 0"
  "lookup_valid pm d0 = Some p \<Longrightarrow> isKRW it \<Longrightarrow>
     startValue fxm pm (d0 # rest) it = p * quantity it"
  "lookup_valid pm d0 = Some p \<Longrightarrow> \<not> isKRW it \<Longrightarrow> lookup_valid fxm d0 = Some x \<Longrightarrow>
     startValue fxm pm (d0 # rest) it = p * quantity it * x"
  "lookup_valid pm d0 = Some p \<Longrightarrow> \<not> isKRW it \<Longrightarrow> fxm d0 = None \<Longrightarrow>
     startValue fxm pm (d0 # rest) it = p * quantity it * 1200"
  by (auto simp: startValue_def lookup_valid_def toNumber_def Let_def split: option.splits)

text \<open>
  Claim C8, as amended. The start snapshot of a holding is its value from the entries at
  the first axis date alone: 0 when the holding has no valid price at that date, even if
  a price is available later, and otherwise that price times the quantity, times, for a
  foreign holding, the FX rate observed at that date, or 1200 when the FX lookup has no
  entry there. The end snapshot is the forward-filled price at the last axis date times
  the quantity times the FX multiplier of the last axis date when that price is
  positive, and 0 otherwise, in particular when no price was ever available. The
  valuation series is the output of the valuation loop alone.
\<close>

theorem composition_snapshots:
  assumes "items \<noteq> []" and "fetchHistory ''KRW=X'' rng = Some fx" and "idx < length items"
  shows "\<exists>a. analyzePortfolio tz fetchHistory items rng = Inr a
     \<and> axisLabels a = sortedDates tz fx (stockResults fetchHistory items rng)
     \<and> fst (startValues a ! idx) = name (items ! idx)
     \<and> fst (endValues a ! idx) = name (items ! idx)
     \<and> (axisLabels a = [] \<longrightarrow> snd (startValues a ! idx) = 0)
     \<and> (axisLabels a = d0 # rest
          \<and> lookup_valid (dateToStocks tz (stockResults fetchHistory items rng) ! idx) d0 = None
          \<longrightarrow> snd (startValues a ! idx) = 0)
     \<and> (axisLabels a = d0 # rest
          \<and> lookup_valid (dateToStocks tz (stockResults fetchHistory items rng) ! idx) d0 = Some p
          \<and> isKRW (items ! idx)
          \<longrightarrow> snd (startValues a ! idx) = p * quantity (items ! idx))
     \<and> (axisLabels a = d0 # rest
          \<and> lookup_valid (dateToStocks tz (stockResults fetchHistory items rng) ! idx) d0 = Some p
          \<and> \<not> isKRW (items ! idx) \<and> lookup_valid (dateMap tz fx) d0 = Some x
          \<longrightarrow> snd (startValues a ! idx) = p * quantity (items ! idx) * x)
     \<and> (axisLabels a = d0 # rest
          \<and> lookup_valid (dateToStocks tz (stockResults fetchHistory items rng) ! idx) d0 = Some p
          \<and> \<not> isKRW (items ! idx) \<and> dateMap tz fx d0 = None
          \<longrightarrow> snd (startValues a ! idx) = p * quantity (items ! idx) * 1200)
     \<and> snd (endValues a ! idx) =
         (if axisLabels a = [] then 0
          else if 0 < effectivePrice tz fx (stockResults fetchHistory items rng) idx (last (axisLabels a))
          then effectivePrice tz fx (stockResults fetchHistory items rng) idx (last (axisLabels a))
               * quantity (items ! idx)
               * fxMultiplier tz fx (stockResults fetchHistory items rng) (items ! idx) (last (axisLabels a))
          else 0)
     \<and> valuationSeries a = portfolioValues (valuation tz fx items (stockResults fetchHistory items rng))"
proof -
  let ?stocks = "stockResults fetchHistory items rng"
  let ?st = "valuation tz fx items ?stocks"
  let ?pm = "dateToStocks tz ?stocks ! idx"
  define a where "a = projr (analyzePortfolio tz fetchHistory items rng)"
  have r: "analyzePortfolio tz fetchHistory items rng = Inr a"
    unfolding a_def using assms(1,2) by (simp add: analyzePortfolio_def Let_def)
  have ax: "axisLabels a = sortedDates tz fx ?stocks"
    and vs: "valuationSeries a = portfolioValues ?st"
    unfolding a_def using assms(1,2)
    by (simp_all add: analyzePortfolio_def Let_def valuation_length)
  have s: "startValues a ! idx =
      (name (items ! idx), startValue (dateMap tz fx) ?pm (axisLabels a) (items ! idx))"
    unfolding ax unfolding a_def using assms
    by (simp add: analyzePortfolio_def Let_def del: upt_Suc)
  have "endValues a ! idx =
      (name (items ! idx), endValue (lastExchange ?st) (lastPrices ?st ! idx) (items ! idx))"
    unfolding a_def using assms by (simp add: analyzePortfolio_def Let_def del: upt_Suc)
  then have e: "endValues a ! idx =
         (name (items ! idx),
          if axisLabels a = [] then 0
          else if 0 < effectivePrice tz fx ?stocks idx (last (axisLabels a))
          then effectivePrice tz fx ?stocks idx (last (axisLabels a))
               * quantity (items ! idx)
               * fxMultiplier tz fx ?stocks (items ! idx) (last (axisLabels a))
          else 0)"
    unfolding ax end_snapshot[OF assms(3)] .
  have s0: "axisLabels a = [] \<longrightarrow> snd (startValues a ! idx) = 0"
    by (simp add: s start_cases)
  have s1: "axisLabels a = d0 # rest \<and> lookup_valid ?pm d0 = None
          \<longrightarrow> snd (startValues a ! idx) = 0"
    by (simp add: s start_cases)
  have s2: "axisLabels a = d0 # rest \<and> lookup_valid ?pm d0 = Some p \<and> isKRW (items ! idx)
          \<longrightarrow> snd (startValues a ! idx) = p * quantity (items ! idx)"
    by (simp add: s start_cases)
  have s3: "axisLabels a = d0 # rest \<and> lookup_valid ?pm d0 = Some p
          \<and> \<not> isKRW (items ! idx) \<and> lookup_valid (dateMap tz fx) d0 = Some x
          \<longrightarrow> snd (startValues a ! idx) = p * quantity (items ! idx) * x"
    by (simp add: s start_cases)
  have s4: "axisLabels a = d0 # rest \<and> lookup_valid ?pm d0 = Some p
          \<and> \<not> isKRW (items ! idx) \<and> dateMap tz fx d0 = None
          \<longrightarrow> snd (startValues a ! idx) = p * quantity (items ! idx) * 1200"
    by (simp add: s start_cases)
  have n: "fst (startValues a ! idx) = name (items ! idx)" "fst (endValues a ! idx) = name (items ! idx)"
    by (simp_all add: s e)
  have e': "snd (endValues a ! idx) =
         (if axisLabels a = [] then 0
          else if 0 < effectivePrice tz fx ?stocks idx (last (axisLabels a))
          then effectivePrice tz fx ?stocks idx (last (axisLabels a))
               * quantity (items ! idx)
               * fxMultiplier tz fx ?stocks (items ! idx) (last (axisLabels a))
          else 0)"
    unfolding e by (rule snd_conv)
  from r ax n s0 s1 s2 s3 s4 e' vs show ?thesis by blast
qed

lemma axis_early:
  "sortedDates 0 fxS [Some stockEarly] = [''1970-01-01'', ''1970-01-02'', ''1970-01-03'']"
  by (simp add: pipeline scenario)

lemma maps_early:
  "dateToStocks 0 [Some stockEarly] ! 0 = [''1970-01-01'' \<mapsto> Some 10, ''1970-01-02'' \<mapsto> Some 10]"
  "dateToStocks 0 [Some stockA, Some stockB] ! Suc 0 =
     [''1970-01-01'' \<mapsto> Some 5000, ''1970-01-04'' \<mapsto> Some 5100]"
  by (simp_all add: dateToStocks_def dateMap_def scenario day_keys)

theorem composition_snapshots_witness:
  "snd (startValues (projr (analyzePortfolio 0 fetchS itemsS ''1y'')) ! 0) = 0
   \<and> snd (startValues (projr (analyzePortfolio 0 fetchS itemsS ''1y'')) ! 1) = 5000
   \<and> snd (startValues (projr (analyzePortfolio 0 fetchEarly itemsA ''1y'')) ! 0) = 26000
   \<and> snd (startValues (projr (analyzePortfolio 0 fetchLate itemsA ''1y'')) ! 0) = 24000
   \<and> (if 0 < effectivePrice 0 fxS (stockResults fetchS itemsS ''1y'') 0 ''1970-01-04''
       then effectivePrice 0 fxS (stockResults fetchS itemsS ''1y'') 0 ''1970-01-04''
            * quantity (itemsS ! 0)
            * fxMultiplier 0 fxS (stockResults fetchS itemsS ''1y'') (itemsS ! 0) ''1970-01-04''
       else 0) = 31440"
proof -
  have i: "itemsS \<noteq> []" "0 < length itemsS" "1 < length itemsS"
    "itemsA \<noteq> []" "0 < length itemsA"
    by (simp_all add: itemsS_def itemsA_def)
  have k: "\<not> isKRW (itemsS ! 0)" "isKRW (itemsS ! 1)" "\<not> isKRW (itemsA ! 0)"
    "quantity (itemsS ! 1) = 1" "quantity (itemsA ! 0) = 2"
    by (simp_all add: itemsS_def itemsA_def isKRW_def endsWith_def)
  have f: "fetchEarly ''KRW=X'' ''1y'' = Some fxS" "fetchLate ''KRW=X'' ''1y'' = Some fxLate"
    "stockResults fetchEarly itemsA ''1y'' = [Some stockEarly]"
    "stockResults fetchLate itemsA ''1y'' = [Some stockEarly]"
    by (simp_all add: fetchEarly_def fetchLate_def stockResults_def itemsA_def)
  note S0 = composition_snapshots[where fetchHistory = fetchS and items = itemsS and rng = "''1y''"
      and fx = fxS and tz = 0 and idx = 0 and ?d0.0 = "''1970-01-01''"
      and rest = "[''1970-01-02'', ''1970-01-03'', ''1970-01-04'']", OF i(1) fetch_fx_S i(2)]
  note S1 = composition_snapshots[where fetchHistory = fetchS and items = itemsS and rng = "''1y''"
      and fx = fxS and tz = 0 and idx = 1 and ?d0.0 = "''1970-01-01''"
      and rest = "[''1970-01-02'', ''1970-01-03'', ''1970-01-04'']" and p = 5000,
      OF i(1) fetch_fx_S i(3)]
  note E = composition_snapshots[where fetchHistory = fetchEarly and items = itemsA and rng = "''1y''"
      and fx = fxS and tz = 0 and idx = 0 and ?d0.0 = "''1970-01-01''"
      and rest = "[''1970-01-02'', ''1970-01-03'']" and p = 10 and x = 1300,
      OF i(4) f(1) i(5)]
  note L = composition_snapshots[where fetchHistory = fetchLate and items = itemsA and rng = "''1y''"
      and fx = fxLate and tz = 0 and idx = 0 and ?d0.0 = "''1970-01-01''"
      and rest = "[''1970-01-02'']" and p = 10,
      OF i(4) f(2) i(5)]
  have 1: "snd (startValues (projr (analyzePortfolio 0 fetchS itemsS ''1y'')) ! 0) = 0"
    using S0 by (auto simp: stocks_S axis_S maps_S lookup_valid_def)
  have 2: "snd (startValues (projr (analyzePortfolio 0 fetchS itemsS ''1y'')) ! 1) = 5000"
    using S1 k by (auto simp: stocks_S axis_S maps_early lookup_valid_def)
  have 3: "snd (startValues (projr (analyzePortfolio 0 fetchEarly itemsA ''1y'')) ! 0) = 26000"
    using E k by (auto simp: f axis_early maps_early maps_S lookup_valid_def)
  have 4: "snd (startValues (projr (analyzePortfolio 0 fetchLate itemsA ''1y'')) ! 0) = 24000"
    using L k by (auto simp: f axis_late maps_early map_late lookup_valid_def)
  from S0 obtain a where a: "analyzePortfolio 0 fetchS itemsS ''1y'' = Inr a"
    and e: "snd (endValues a ! 0) =
         (if axisLabels a = [] then 0
          else if 0 < effectivePrice 0 fxS (stockResults fetchS itemsS ''1y'') 0 (last (axisLabels a))
          then effectivePrice 0 fxS (stockResults fetchS itemsS ''1y'') 0 (last (axisLabels a))
               * quantity (itemsS ! 0)
               * fxMultiplier 0 fxS (stockResults fetchS itemsS ''1y'') (itemsS ! 0) (last (axisLabels a))
          else 0)"
    by blast
  from a have v: "endValues a = [(''Apple'', 31440), (''Samsung'', 5100)]"
    "axisLabels a = [''1970-01-01'', ''1970-01-02'', ''1970-01-03'', ''1970-01-04'']"
    by (auto simp: analysis_S)
  from e have 5: "(if 0 < effectivePrice 0 fxS (stockResults fetchS itemsS ''1y'') 0 ''1970-01-04''
       then effectivePrice 0 fxS (stockResults fetchS itemsS ''1y'') 0 ''1970-01-04''
            * quantity (itemsS ! 0)
            * fxMultiplier 0 fxS (stockResults fetchS itemsS ''1y'') (itemsS ! 0) ''1970-01-04''
       else 0) = 31440"
    unfolding v by (simp split del: if_split cong del: if_weak_cong)
  from 1 2 3 4 5 show ?thesis by (simp only: simp_thms)
qed

text \<open>
  Claim C8 as stated fails for the start snapshot: the foreign holding has its first
  price on the second axis date, where its normalized value is 26000, yet its start
  snapshot is 0.
\<close>

theorem start_snapshot_counterexample:
  "startValues (projr (analyzePortfolio 0 fetchS itemsS ''1y'')) ! 0 = (''Apple'', 0)
   \<and> lookup_valid (dateToStocks 0 [Some stockA, Some stockB] ! 0) ''1970-01-01'' = None
   \<and> lookup_valid (dateToStocks 0 [Some stockA, Some stockB] ! 0) ''1970-01-02'' = Some 10
   \<and> holding_value (itemsS ! 0)
        (lastPrices (state_at 0 fxS itemsS [Some stockA, Some stockB] 1) ! 0)
        (lastExchange (state_at 0 fxS itemsS [Some stockA, Some stockB] 1)) = 26000"
proof -
  have "state_at 0 fxS itemsS [Some stockA, Some stockB] 1 =
      \<lparr>lastExchange = 1300, lastPrices = [10, 5000], portfolioValues = [5000, 31000],
       chartLabels = [''1970-01-01'', ''1970-01-02'']\<rparr>"
    unfolding state_at_def axis_S by (simp add: pipeline scenario)
  moreover have "itemsS ! 0 = \<lparr>symbol = ''AAPL'', name = ''Apple'', quantity = 2\<rparr>"
    by (simp add: itemsS_def)
  ultimately show ?thesis
    by (simp add: analysis_S maps_S lookup_valid_def holding_value_def isKRW_def endsWith_def)
qed

section \<open>Two observations on one date\<close>

lemma dateMap_append:
  "dateMap tz (xs @ ys) = foldl (\<lambda>m (t, c). m(ymd tz t \<mapsto> c)) (dateMap tz xs) ys"
  by (simp add: dateMap_def)

lemma fold_agree:
  assumes "\<forall>x. x \<noteq> k \<longrightarrow> m x = m' x" and "k \<in> ymd tz ` fst ` set r"
  shows "foldl (\<lambda>m (t, c). m(ymd tz t \<mapsto> c)) m r = foldl (\<lambda>m (t, c). m(ymd tz t \<mapsto> c)) m' r"
  using assms
proof (induction r arbitrary: m m')
  case Nil
  then show ?case by simp
next
  case (Cons e r)
  obtain t c where e: "e = (t, c)" by (cases e)
  show ?case
  proof (cases "ymd tz t = k")
    case True
    have eq: "m(ymd tz t \<mapsto> c) = m'(ymd tz t \<mapsto> c)"
      using Cons.prems(1) True by (intro ext) simp
    have "foldl (\<lambda>m (t, c). m(ymd tz t \<mapsto> c)) m (e # r) =
        foldl (\<lambda>m (t, c). m(ymd tz t \<mapsto> c)) (m(ymd tz t \<mapsto> c)) r"
      by (simp add: e)
    also have "\<dots> = foldl (\<lambda>m (t, c). m(ymd tz t \<mapsto> c)) (m'(ymd tz t \<mapsto> c)) r"
      by (simp only: eq)
    also have "\<dots> = foldl (\<lambda>m (t, c). m(ymd tz t \<mapsto> c)) m' (e # r)"
      by (simp add: e)
    finally show ?thesis .
  next
    case False
    with Cons.prems(2) have "k \<in> ymd tz ` fst ` set r" by (auto simp: e)
    moreover have "\<forall>x. x \<noteq> k \<longrightarrow> (m(ymd tz t \<mapsto> c)) x = (m'(ymd tz t \<mapsto> c)) x"
      using Cons.prems(1) by simp
    ultimately have eq: "foldl (\<lambda>m (t, c). m(ymd tz t \<mapsto> c)) (m(ymd tz t \<mapsto> c)) r =
        foldl (\<lambda>m (t, c). m(ymd tz t \<mapsto> c)) (m'(ymd tz t \<mapsto> c)) r"
      by (intro Cons.IH)
    have "foldl (\<lambda>m (t, c). m(ymd tz t \<mapsto> c)) m (e # r) =
        foldl (\<lambda>m (t, c). m(ymd tz t \<mapsto> c)) (m(ymd tz t \<mapsto> c)) r"
      by (simp add: e)
    also note eq
    also have "foldl (\<lambda>m (t, c). m(ymd tz t \<mapsto> c)) (m'(ymd tz t \<mapsto> c)) r =
        foldl (\<lambda>m (t, c). m(ymd tz t \<mapsto> c)) m' (e # r)"
      by (simp add: e)
    finally show ?thesis .
  qed
qed

lemma dateMap_earlier:
  assumes "ymd tz t1 = ymd tz t2"
  shows "dateMap tz (pre @ (t1, c1) # mid @ (t2, c2) # post) =
         dateMap tz (pre @ (t1, c1') # mid @ (t2, c2) # post)"
proof -
  let ?f = "\<lambda>m (t, c). m(ymd tz t \<mapsto> c)"
  have "foldl ?f ((dateMap tz pre)(ymd tz t1 \<mapsto> c1)) (mid @ (t2, c2) # post) =
        foldl ?f ((dateMap tz pre)(ymd tz t1 \<mapsto> c1')) (mid @ (t2, c2) # post)"
    by (rule fold_agree[where k = "ymd tz t1"]) (simp_all add: assms)
  then show ?thesis
    unfolding dateMap_append[of tz pre] by simp
qed

lemma fold_keep:
  "k \<notin> ymd tz ` fst ` set r \<Longrightarrow> foldl (\<lambda>m (t, c). m(ymd tz t \<mapsto> c)) m r k = m k"
  by (induction r arbitrary: m) auto

lemma dateMap_last:
  assumes "\<forall>(t, c)\<in>set post. ymd tz t \<noteq> ymd tz t2"
  shows "dateMap tz (xs @ (t2, c2) # post) (ymd tz t2) = Some c2"
proof -
  have "ymd tz t2 \<notin> ymd tz ` fst ` set post" using assms by force
  then show ?thesis
    unfolding dateMap_append[of tz xs] by (simp add: fold_keep)
qed

lemma allDatesSet_keys:
  "allDatesSet tz fx stocks =
     foldl (\<lambda>s ks. foldl Set_add s ks) (foldl Set_add [] (map (\<lambda>(t, c). ymd tz t) fx))
       (map (\<lambda>res. case res of None \<Rightarrow> [] | Some r \<Rightarrow> map (\<lambda>(t, c). ymd tz t) r) stocks)"
proof -
  have "foldl (\<lambda>s res. case res of None \<Rightarrow> s | Some r \<Rightarrow> foldl Set_add s (map (\<lambda>(t, c). ymd tz t) r)) s0 stocks =
     foldl (\<lambda>s ks. foldl Set_add s ks) s0
       (map (\<lambda>res. case res of None \<Rightarrow> [] | Some r \<Rightarrow> map (\<lambda>(t, c). ymd tz t) r) stocks)" for s0
    by (induction stocks arbitrary: s0) (simp_all split: option.splits)
  then show ?thesis by (simp add: allDatesSet_def)
qed

lemma keys_earlier:
  "map (\<lambda>(t, c). ymd tz t) (pre @ (t1, c1) # rest) = map (\<lambda>(t, c). ymd tz t) (pre @ (t1, c1') # rest)"
  by simp

lemma valuation_stock_earlier:
  assumes "ymd tz t1 = ymd tz t2" "i < length stocks"
    and "stocks ! i = Some (pre @ (t1, c1) # mid @ (t2, c2) # post)"
  shows "valuation tz fx items (stocks[i := Some (pre @ (t1, c1') # mid @ (t2, c2) # post)]) =
         valuation tz fx items stocks"
proof -
  let ?s = "pre @ (t1, c1) # mid @ (t2, c2) # post"
  let ?s' = "pre @ (t1, c1') # mid @ (t2, c2) # post"
  let ?g = "\<lambda>res. case res of None \<Rightarrow> [] | Some r \<Rightarrow> map (\<lambda>(t, c). ymd tz t) r"
  let ?h = "\<lambda>res. case res of None \<Rightarrow> Map.empty | Some r \<Rightarrow> dateMap tz r"
  have "map ?g (stocks[i := Some ?s']) = (map ?g stocks)[i := ?g (Some ?s)]"
    by (simp add: map_update)
  also have "\<dots> = map ?g stocks"
    using assms(2,3) by (metis list_update_id nth_map)
  finally have k: "map ?g (stocks[i := Some ?s']) = map ?g stocks" .
  have "map ?h (stocks[i := Some ?s']) = (map ?h stocks)[i := ?h (Some ?s)]"
    using dateMap_earlier[OF assms(1), of pre c1 mid c2 post c1'] by (simp add: map_update)
  also have "\<dots> = map ?h stocks"
    using assms(2,3) by (metis list_update_id nth_map)
  finally have m: "dateToStocks tz (stocks[i := Some ?s']) = dateToStocks tz stocks"
    by (simp add: dateToStocks_def)
  have d: "sortedDates tz fx (stocks[i := Some ?s']) = sortedDates tz fx stocks"
    unfolding sortedDates_def allDatesSet_keys k ..
  show ?thesis
    unfolding valuation_def run_dates_def m d ..
qed

lemma valuation_fx_earlier:
  assumes "ymd tz t1 = ymd tz t2" "pre \<noteq> []"
  shows "valuation tz (pre @ (t1, c1') # mid @ (t2, c2) # post) items stocks =
         valuation tz (pre @ (t1, c1) # mid @ (t2, c2) # post) items stocks"
proof -
  let ?s = "pre @ (t1, c1) # mid @ (t2, c2) # post"
  let ?s' = "pre @ (t1, c1') # mid @ (t2, c2) # post"
  have f: "firstExchange ?s' = firstExchange ?s"
    using assms(2) by (cases pre) (simp_all add: firstExchange_def)
  have m: "dateMap tz ?s' = dateMap tz ?s"
    by (rule dateMap_earlier[OF assms(1)])
  have d: "sortedDates tz ?s' stocks = sortedDates tz ?s stocks"
    unfolding sortedDates_def allDatesSet_keys keys_earlier[of tz pre t1 c1' _ c1] ..
  show ?thesis
    unfolding valuation_def run_dates_def initial_state_def m d f ..
qed

text \<open>
  Claim C10, as amended. When two observations of a series fall on the same date key,
  the per-date lookup does not depend on the close of the earlier one, and it holds the
  close of the observation that comes last in the array for that key; this is so for a
  stock series and for the FX series. The earlier same-date close of a stock series
  never contributes to the valuation. The earlier same-date close of the FX series does
  not contribute either, unless it is the first element of the FX array.
\<close>

theorem same_day_last_wins:
  assumes "ymd tz t1 = ymd tz t2"
  shows "dateMap tz (pre @ (t1, c1) # mid @ (t2, c2) # post) =
           dateMap tz (pre @ (t1, c1') # mid @ (t2, c2) # post)
     \<and> ((\<forall>(t, c)\<in>set post. ymd tz t \<noteq> ymd tz t2) \<longrightarrow>
           dateMap tz (pre @ (t1, c1) # mid @ (t2, c2) # post) (ymd tz t2) = Some c2)
     \<and> (i < length stocks \<and> stocks ! i = Some (pre @ (t1, c1) # mid @ (t2, c2) # post) \<longrightarrow>
           valuation tz fx items (stocks[i := Some (pre @ (t1, c1') # mid @ (t2, c2) # post)]) =
           valuation tz fx items stocks)
     \<and> (pre \<noteq> [] \<longrightarrow>
           valuation tz (pre @ (t1, c1') # mid @ (t2, c2) # post) items stocks =
           valuation tz (pre @ (t1, c1) # mid @ (t2, c2) # post) items stocks)"
proof (intro conjI impI)
  show "dateMap tz (pre @ (t1, c1) # mid @ (t2, c2) # post) =
           dateMap tz (pre @ (t1, c1') # mid @ (t2, c2) # post)"
    by (rule dateMap_earlier[OF assms])
  show "dateMap tz (pre @ (t1, c1) # mid @ (t2, c2) # post) (ymd tz t2) = Some c2"
    if "\<forall>(t, c)\<in>set post. ymd tz t \<noteq> ymd tz t2"
    using dateMap_last[OF that, of "pre @ (t1, c1) # mid" c2] by simp
  show "valuation tz fx items (stocks[i := Some (pre @ (t1, c1') # mid @ (t2, c2) # post)]) =
           valuation tz fx items stocks"
    if "i < length stocks \<and> stocks ! i = Some (pre @ (t1, c1) # mid @ (t2, c2) # post)"
    using that by (intro valuation_stock_earlier[OF assms]) simp_all
  show "valuation tz (pre @ (t1, c1') # mid @ (t2, c2) # post) items stocks =
           valuation tz (pre @ (t1, c1) # mid @ (t2, c2) # post) items stocks"
    if "pre \<noteq> []"
    by (rule valuation_fx_earlier[OF assms that])
qed

theorem same_day_last_wins_witness:
  "dateMap 0 [(0, Some 7), (86400, Some 9), (90000, Some 10)] =
     dateMap 0 [(0, Some 7), (86400, Some 8), (90000, Some 10)]
   \<and> dateMap 0 [(0, Some 7), (86400, Some 9), (90000, Some 10)] (ymd 0 90000) = Some (Some 10)
   \<and> valuation 0 fxS itemsA [Some [(0, Some 7), (86400, Some 8), (90000, Some 10)]] =
       valuation 0 fxS itemsA [Some [(0, Some 7), (86400, Some 9), (90000, Some 10)]]
   \<and> valuation 0 [(0, Some 7), (86400, Some 8), (90000, Some 10)] itemsA [None] =
       valuation 0 [(0, Some 7), (86400, Some 9), (90000, Some 10)] itemsA [None]"
  using same_day_last_wins[where tz = 0 and ?t1.0 = 86400 and ?t2.0 = 90000 and pre = "[(0, Some 7)]"
      and ?c1.0 = "Some 9" and c1' = "Some 8" and mid = "[]" and ?c2.0 = "Some 10" and post = "[]"
      and i = 0 and stocks = "[Some [(0, Some 7), (86400, Some 9), (90000, Some 10)]]"
      and fx = fxS and items = itemsA]
    same_day_last_wins[where tz = 0 and ?t1.0 = 86400 and ?t2.0 = 90000 and pre = "[(0, Some 7)]"
      and ?c1.0 = "Some 9" and c1' = "Some 8" and mid = "[]" and ?c2.0 = "Some 10" and post = "[]"
      and stocks = "[None]" and items = itemsA]
  by (simp add: day_keys)

lemma axis_dup:
  "sortedDates 0 fxDup1 [Some stockEarly] = [''1970-01-01'', ''1970-01-02'']"
  "sortedDates 0 fxDup2 [Some stockEarly] = [''1970-01-01'', ''1970-01-02'']"
  by (simp_all add: pipeline scenario)

text \<open>
  Claim C10 as stated fails for the FX series: the two FX series differ only in the
  earlier of two closes of 1970-01-02, the lookup keeps the later close 1300 in both,
  and yet the valuation of 1970-01-01 differs, because the first close of the array is
  the initial FX rate.
\<close>

theorem earlier_fx_close_counterexample:
  "ymd 0 86400 = ymd 0 90000
   \<and> dateMap 0 fxDup1 = dateMap 0 fxDup2
   \<and> dateMap 0 fxDup1 (ymd 0 86400) = Some (Some 1300)
   \<and> portfolioValues (valuation 0 fxDup1 itemsA [Some stockEarly]) = [20000, 26000]
   \<and> portfolioValues (valuation 0 fxDup2 itemsA [Some stockEarly]) = [22000, 26000]"
  by (simp add: pipeline scenario)

section \<open>The prober picks the first range that is not rejected\<close>

lemma minLen_less: "minLen ds < 120 \<longleftrightarrow> (\<exists>d\<in>set ds. length d < 120)"
proof (induction ds)
  case Nil
  show ?case by (simp add: minLen_def)
next
  case (Cons d ds)
  have "minLen (d # ds) = min (enat (length d)) (minLen ds)" by (simp add: minLen_def)
  moreover have "enat (length d) < 120 \<longleftrightarrow> length d < 120"
    by (simp add: numeral_eq_enat)
  ultimately show ?case using Cons by (simp add: min_less_iff_disj)
qed

lemma minLen_finite: "ds \<noteq> [] \<Longrightarrow> \<exists>n. minLen ds = enat n"
proof (induction ds)
  case Nil
  then show ?case by simp
next
  case (Cons d ds)
  have m: "minLen (d # ds) = min (enat (length d)) (minLen ds)" by (simp add: minLen_def)
  show ?case
  proof (cases "minLen ds")
    case (enat k)
    then show ?thesis by (simp add: m min_def)
  next
    case infinity
    then show ?thesis by (simp add: m)
  qed
qed

lemma foldl_max:
  "foldl (\<lambda>m res. if m < f res then f res else m) (a::int) rs = Max (insert a (set (map f rs)))"
proof -
  have "foldl (\<lambda>m res. if m < f res then f res else m) a rs = fold max (map f rs) a"
    by (induction rs arbitrary: a) (simp_all add: max_def)
  also have "\<dots> = Max (set (a # map f rs))"
    by (rule Max.set_eq_fold[symmetric])
  finally show ?thesis by simp
qed

lemma maxStartTime_latest: "maxStartTime rs = latest_start rs"
  by (simp add: maxStartTime_def latest_start_def foldl_max)

lemma slice_trim:
  "length (slice_from (findIndex (\<lambda>(t, c). start \<le> t) res) res) < 120
   \<longleftrightarrow> length (trimmed start res) < 120"
proof -
  have n: "(\<lambda>x. \<not> (case x of (t, c) \<Rightarrow> start \<le> t)) = (\<lambda>(t, c). t < start)"
    by (auto simp: fun_eq_iff)
  show ?thesis
  proof (cases "\<exists>x\<in>set res. case x of (t, c) \<Rightarrow> start \<le> t")
    case True
    then have "slice_from (findIndex (\<lambda>(t, c). start \<le> t) res) res = trimmed start res"
      by (simp add: findIndex_def slice_from_def trimmed_def n dropWhile_eq_drop)
    then show ?thesis by simp
  next
    case False
    then have "\<forall>x\<in>set res. case x of (t, c) \<Rightarrow> t < start" by auto
    then have "trimmed start res = []" by (simp add: trimmed_def)
    moreover have "length (slice_from (findIndex (\<lambda>(t, c). start \<le> t) res) res) \<le> 1"
      using False by (simp add: findIndex_def slice_from_def)
    ultimately show ?thesis by simp
  qed
qed

lemma invalid_fetched:
  "(\<exists>r\<in>set (map (\<lambda>it. f (asset it) rng) items). invalid r)
   \<longleftrightarrow> (\<exists>it\<in>set items. too_few_raw f it rng)"
  by (simp add: invalid_def too_few_raw_def)

lemma processed_short:
  "(\<exists>d\<in>set (processedData rs). length d < 120)
   \<longleftrightarrow> (\<exists>r\<in>set rs. length (trimmed (latest_start rs) r) < 120)"
  by (simp add: processedData_def maxStartTime_latest slice_trim)


lemma fetched_the:
  "map the (map (\<lambda>it. f (asset it) rng) items) = fetched_series f items rng"
  by (simp add: fetched_series_def)

lemma probe_cases:
  assumes "items \<noteq> []"
  shows "(rejected f items rng \<longrightarrow> probe f items rng = Continue)
     \<and> (\<not> rejected f items rng \<longrightarrow> (\<exists>m. probe f items rng = Return m \<and> m_range m = rng))"
proof (cases "\<exists>it\<in>set items. too_few_raw f it rng")
  case True
  then have "rejected f items rng" by (simp add: rejected_def)
  moreover have "probe f items rng = Continue"
    using True unfolding probe_def Let_def invalid_fetched by simp
  ultimately show ?thesis by simp
next
  case False
  let ?ds = "processedData (fetched_series f items rng)"
  have short: "minLen ?ds < 120 \<longleftrightarrow> rejected f items rng"
    using False by (simp add: minLen_less processed_short rejected_def)
  have p: "probe f items rng =
      (if minLen ?ds < 120 then Continue
        else case minLen ?ds of
          \<infinity> \<Rightarrow> Diverges
        | enat n \<Rightarrow>
            (let vs = presetValues items (normPrices ?ds) n;
                 startVal = vs ! 0;
                 endVal = vs ! (length vs - 1);
                 durationDays =
                   Num (of_int (fst (hd ?ds ! (n - 1)) - fst (hd ?ds ! 0))) / Num (3600 * 24);
                 years = durationDays / Num 365.25;
                 growth = (js_pow (endVal / startVal) (Num 1 / years) - Num 1) * Num 100
             in Return \<lparr>m_range = rng,
                        m_return = toFixed2 growth,
                        m_mdd = toFixed2 (maxDrawdown vs * Num 100)\<rparr>))"
    using False unfolding probe_def Let_def invalid_fetched fetched_the by simp
  show ?thesis
  proof (cases "rejected f items rng")
    case True
    then show ?thesis unfolding p using short by simp
  next
    case no: False
    have "?ds \<noteq> []" using assms by (simp add: processedData_def fetched_series_def)
    then obtain n where n: "minLen ?ds = enat n" using minLen_finite by blast
    show ?thesis
      unfolding p using short no by (simp add: n Let_def)
  qed
qed

lemma probe_Continue_iff:
  assumes "items \<noteq> []"
  shows "probe f items rng = Continue \<longleftrightarrow> rejected f items rng"
  using probe_cases[OF assms, of f rng] by (cases "rejected f items rng") auto

lemma try_ranges_find:
  assumes "items \<noteq> []"
  shows "try_ranges f items ranges =
     Some (case find (\<lambda>r. \<not> rejected f items r) ranges of
             None \<Rightarrow> sentinel
           | Some r \<Rightarrow> result (probe f items r))"
proof (induction ranges)
  case Nil
  show ?case by (simp add: sentinel_def)
next
  case (Cons r ranges)
  show ?case
  proof (cases "rejected f items r")
    case True
    with probe_cases[OF assms, of f r] have "probe f items r = Continue" by simp
    with True Cons show ?thesis by simp
  next
    case False
    with probe_cases[OF assms, of f r] obtain m where "probe f items r = Return m" by blast
    with False show ?thesis by simp
  qed
qed

lemma latest_start_nonneg:
  assumes "rs \<noteq> []" "\<forall>r\<in>set rs. 0 \<le> fst (hd r)"
  shows "latest_start rs = Max (set (map (\<lambda>r. fst (hd r)) rs))"
proof -
  let ?S = "set (map (\<lambda>r. fst (hd r)) rs)"
  have ne: "?S \<noteq> {}" using assms(1) by simp
  have "Max (insert 0 ?S) = max 0 (Max ?S)"
    using ne by (intro Max_insert) simp
  moreover have "0 \<le> Max ?S"
  proof -
    obtain r where "r \<in> set rs" using assms(1) by (cases rs) auto
    then have "fst (hd r) \<in> ?S" "0 \<le> fst (hd r)" using assms(2) by simp_all
    moreover have "fst (hd r) \<le> Max ?S" using calculation(1) by (intro Max_ge) simp_all
    ultimately show ?thesis by linarith
  qed
  ultimately show ?thesis by (simp add: latest_start_def)
qed

text \<open>
  Claim C6. For a preset with at least one item, a round of the prober goes on to the
  next range exactly when the range is rejected: an asset was not fetched or has fewer
  than 10 raw observations, or the common length after trimming every series to the
  latest common start is below 120. Otherwise the round returns a result for that range.
  So the prober returns the result of the first range, in the order 10y, 5y, 3y, 1y,
  that is not rejected, and the sentinel N/A, 0.00, 0.00 when all four are rejected, as
  when an asset has fewer than 10 raw observations at every range. The latest common
  start is the latest first timestamp of the fetched series when none is negative.
\<close>

theorem adaptive_range_prober:
  assumes "items \<noteq> []"
  shows "(probe f items rng = Continue \<longleftrightarrow> rejected f items rng)
     \<and> (\<not> rejected f items rng \<longrightarrow> (\<exists>m. probe f items rng = Return m \<and> m_range m = rng))
     \<and> calcPortfolioMetrics f items =
         Some (case find (\<lambda>r. \<not> rejected f items r) [''10y'', ''5y'', ''3y'', ''1y''] of
                 None \<Rightarrow> sentinel
               | Some r \<Rightarrow> result (probe f items r))
     \<and> ((\<forall>r\<in>set [''10y'', ''5y'', ''3y'', ''1y'']. rejected f items r) \<longrightarrow>
          calcPortfolioMetrics f items =
            Some \<lparr>m_range = ''N/A'', m_return = ''0.00'', m_mdd = ''0.00''\<rparr>)
     \<and> ((\<exists>it\<in>set items. \<forall>r. too_few_raw f it r) \<longrightarrow>
          calcPortfolioMetrics f items =
            Some \<lparr>m_range = ''N/A'', m_return = ''0.00'', m_mdd = ''0.00''\<rparr>)
     \<and> ((\<forall>r\<in>set (fetched_series f items rng). 0 \<le> fst (hd r)) \<longrightarrow>
          latest_start (fetched_series f items rng) =
            Max (set (map (\<lambda>r. fst (hd r)) (fetched_series f items rng))))"
proof (intro conjI impI)
  note c = try_ranges_find[OF assms, of f "[''10y'', ''5y'', ''3y'', ''1y'']", folded calcPortfolioMetrics_def]
  show "probe f items rng = Continue \<longleftrightarrow> rejected f items rng"
    by (rule probe_Continue_iff[OF assms])
  show "\<exists>m. probe f items rng = Return m \<and> m_range m = rng" if "\<not> rejected f items rng"
    using probe_cases[OF assms, of f rng] that by simp
  show "calcPortfolioMetrics f items =
         Some (case find (\<lambda>r. \<not> rejected f items r) [''10y'', ''5y'', ''3y'', ''1y''] of
                 None \<Rightarrow> sentinel
               | Some r \<Rightarrow> result (probe f items r))"
    by (rule c)
  show "calcPortfolioMetrics f items = Some \<lparr>m_range = ''N/A'', m_return = ''0.00'', m_mdd = ''0.00''\<rparr>"
    if "\<forall>r\<in>set [''10y'', ''5y'', ''3y'', ''1y'']. rejected f items r"
    unfolding c using that by (simp add: sentinel_def)
  show "calcPortfolioMetrics f items = Some \<lparr>m_range = ''N/A'', m_return = ''0.00'', m_mdd = ''0.00''\<rparr>"
    if "\<exists>it\<in>set items. \<forall>r. too_few_raw f it r"
  proof -
    from that have "rejected f items r" for r by (auto simp: rejected_def)
    then show ?thesis unfolding c by (simp add: sentinel_def)
  qed
  show "latest_start (fetched_series f items rng) =
            Max (set (map (\<lambda>r. fst (hd r)) (fetched_series f items rng)))"
    if "\<forall>r\<in>set (fetched_series f items rng). 0 \<le> fst (hd r)"
    using assms that by (intro latest_start_nonneg) (simp_all add: fetched_series_def)
qed

lemma daily_props:
  "length (daily n) = n"
  "0 < n \<Longrightarrow> hd (daily n) = (0, Some 100)"
  by (simp_all add: daily_def hd_map upt_conv_Cons)

lemma rejected_daily:
  assumes "0 < n" "f ''VTI'' rng = Some (daily n)"
  shows "rejected f preset rng \<longleftrightarrow> n < 120"
proof -
  have fs: "fetched_series f preset rng = [daily n]"
    by (simp add: fetched_series_def preset_def assms(2))
  have few: "(\<exists>it\<in>set preset. too_few_raw f it rng) \<longleftrightarrow> n < 10"
    by (simp add: preset_def too_few_raw_def assms(2) daily_props)
  have ls: "latest_start [daily n] = 0"
    using assms(1) by (simp add: latest_start_def daily_props)
  obtain rest where d: "daily n = (0, Some 100) # rest"
    using assms(1) daily_props[of n] by (cases "daily n") auto
  have "trimmed 0 (daily n) = daily n"
    unfolding trimmed_def d by simp
  then have "length (trimmed 0 (daily n)) = n" by (simp add: daily_props)
  then show ?thesis
    unfolding rejected_def fs few ls by auto
qed

theorem adaptive_range_prober_witness:
  "calcPortfolioMetrics fetchShort preset =
     Some \<lparr>m_range = ''N/A'', m_return = ''0.00'', m_mdd = ''0.00''\<rparr>
   \<and> probe fetchLong preset ''10y'' = Continue
   \<and> calcPortfolioMetrics fetchLong preset = Some (result (probe fetchLong preset ''5y''))
   \<and> m_range (result (probe fetchLong preset ''5y'')) = ''5y''
   \<and> latest_start (fetched_series fetchLong preset ''5y'') = 0"
proof -
  have ne: "preset \<noteq> []" by (simp add: preset_def)
  have short: "\<exists>it\<in>set preset. \<forall>r. too_few_raw fetchShort it r"
    by (simp add: preset_def too_few_raw_def fetchShort_def daily_props)
  have r10: "rejected fetchLong preset ''10y''"
    by (subst rejected_daily[where n = 119]) (simp_all add: fetchLong_def)
  have r5: "\<not> rejected fetchLong preset ''5y''"
    by (subst rejected_daily[where n = 130]) (simp_all add: fetchLong_def)
  have nn: "\<forall>r\<in>set (fetched_series fetchLong preset ''5y''). 0 \<le> fst (hd r)"
    by (simp add: fetched_series_def preset_def fetchLong_def daily_props)
  have m: "Max (set (map (\<lambda>r. fst (hd r)) (fetched_series fetchLong preset ''5y''))) = 0"
    by (simp add: fetched_series_def preset_def fetchLong_def daily_props)
  note s = adaptive_range_prober[OF ne, where f = fetchShort and rng = "''10y''"]
  note l10 = adaptive_range_prober[OF ne, where f = fetchLong and rng = "''10y''"]
  note l5 = adaptive_range_prober[OF ne, where f = fetchLong and rng = "''5y''"]
  from s short have 1: "calcPortfolioMetrics fetchShort preset =
     Some \<lparr>m_range = ''N/A'', m_return = ''0.00'', m_mdd = ''0.00''\<rparr>"
    by blast
  from l10 r10 have 2: "probe fetchLong preset ''10y'' = Continue" by blast
  have "find (\<lambda>r. \<not> rejected fetchLong preset r) [''10y'', ''5y'', ''3y'', ''1y''] = Some ''5y''"
    using r10 r5 by simp
  with l10 have 3: "calcPortfolioMetrics fetchLong preset = Some (result (probe fetchLong preset ''5y''))"
    by simp
  from l5 r5 obtain m where "probe fetchLong preset ''5y'' = Return m" "m_range m = ''5y''"
    by blast
  then have 4: "m_range (result (probe fetchLong preset ''5y'')) = ''5y''" by simp
  from l5 nn have "latest_start (fetched_series fetchLong preset ''5y'') =
            Max (set (map (\<lambda>r. fst (hd r)) (fetched_series fetchLong preset ''5y'')))"
    by blast
  then have 5: "latest_start (fetched_series fetchLong preset ''5y'') = 0"
    by (simp only: m)
  from 1 2 3 4 5 show ?thesis by (simp only: simp_thms)
qed

section \<open>A valuation series that starts at 0\<close>

lemma valuation_IPO:
  "valuation 0 [(0, Some 1300), (86400, Some 1300)] itemsA [Some [(86400, Some 10)]] =
     \<lparr>lastExchange = 1300, lastPrices = [10], portfolioValues = [0, 26000],
      chartLabels = [''1970-01-01'', ''1970-01-02'']\<rparr>"
  by (simp add: pipeline scenario)

lemma axis_IPO:
  "sortedDates 0 [(0, Some 1300), (86400, Some 1300)] [Some [(86400, Some 10)]] =
     [''1970-01-01'', ''1970-01-02'']"
  by (simp add: pipeline)

text \<open>
  Claim C9 at a series that starts at 0: a stock listed a day after the FX series starts.
  The growth rate is guarded and reported as 0.00%, but the total return has no guard:
  it is \<open>Infinity\<close>, and the page shows it.
\<close>

theorem zero_start_total_return:
  "analyzePortfolio 0 fetchIPO itemsA ''5y'' =
     Inr \<lparr>valuationSeries = [0, 26000],
          axisLabels = [''1970-01-01'', ''1970-01-02''],
          totalReturnPct = PInf,
          cagrPct = Num 0,
          maxDrawdownPct = Num 0,
          statReturn = ''Infinity%'',
          statCagr = ''0.00%'',
          statMdd = ''0.00%'',
          startValues = [(''Apple'', 0)],
          endValues = [(''Apple'', 26000)]\<rparr>"
proof -
  have f: "fetchIPO ''KRW=X'' ''5y'' = Some [(0, Some 1300), (86400, Some 1300)]"
    "stockResults fetchIPO itemsA ''5y'' = [Some [(86400, Some 10)]]"
    by (simp_all add: fetchIPO_def stockResults_def itemsA_def)
  have i: "itemsA \<noteq> []" "length itemsA = 1"
    "itemsA ! 0 = \<lparr>symbol = ''AAPL'', name = ''Apple'', quantity = 2\<rparr>"
    by (simp_all add: itemsA_def)
  have m: "totalReturn [0, 26000] = PInf" "cagr ''5y'' [0, 26000] = Num 0"
    "maxDrawdown [Num 0, Num 26000] = Num 0"
    by (simp_all add: totalReturn_def cagr_def initialValue_def finalValue_def jsnum_ops
        maxDrawdown_def mdd_loop_def mdd_step_def Let_def)
  have t: "toFixed2 PInf = ''Infinity''" "toFixed2 (Num 0) = ''0.00''"
    by (simp_all add: toFixed2_def fmt Let_def)
  have d: "dateToStocks 0 [Some [(86400, Some 10)]] ! 0 = [''1970-01-02'' \<mapsto> Some 10]"
    by (simp add: dateToStocks_def dateMap_def day_keys)
  show ?thesis
    by (simp add: analyzePortfolio_def Let_def f valuation_IPO axis_IPO i m t jsnum_ops d
        startValue_def endValue_def isKRW_def endsWith_def)
qed

end
